theory Spec2Isabelle
  imports Main "HOL-Library.AList"
begin

section \<open>Python values the schema generator inspects\<close>

text \<open>
  A Python class is identified by its name and carries its base classes, so the subclass
  relation of the interpreter can be computed: \<open>cls\<close> is a subclass of \<open>d\<close> when \<open>d\<close>
  is \<open>cls\<close> itself or is reachable through the bases.
\<close>

datatype cls = Class string "cls list"

fun ancestors :: "cls \<Rightarrow> cls list" where
  "ancestors (Class n bases) = Class n bases # concat (map ancestors bases)"

definition py_object :: cls where
  "py_object = Class ''object'' []"

definition py_str :: cls where
  "py_str = Class ''str'' [py_object]"

text \<open>
  How an object that is not a class answers \<open>==\<close> against a class: it compares equal to
  the classes listed (to none, as a string or a number does), or to every object, as
  \<open>unittest.mock.ANY\<close> does.
\<close>

datatype py_eq = Eq_to "cls list" | Eq_any

text \<open>
  What \<open>param.annotation\<close> can hold: \<open>inspect.Signature.empty\<close> when the parameter has no
  annotation, a class, or any other object (a string forward reference such as
  \<open>'User'\<close>, a number, \<open>mock.ANY\<close>, ...), kept by its source text and its \<open>==\<close>.
\<close>

datatype annotation = Signature_empty | ClassAnn cls | ValueAnn string py_eq

datatype error = TypeError

text \<open>
  The builtin \<open>issubclass(derived, cls)\<close> for a class \<open>cls\<close>: it raises TypeError
  ("issubclass() arg 1 must be a class") when \<open>derived\<close> is not a class.
\<close>

fun issubclass :: "annotation \<Rightarrow> cls \<Rightarrow> error + bool" where
  "issubclass (ClassAnn c) d = Inr (d \<in> set (ancestors c))"
| "issubclass Signature_empty d = Inr (d \<in> set (ancestors (Class ''_empty'' [py_object])))"
| "issubclass (ValueAnn v q) d = Inl TypeError"

text \<open>
  \<open>issubclass(derived, (c1, ..., cn))\<close> with a tuple: the interpreter tries the members
  in order and stops at the first that answers True or raises; an empty tuple answers
  False without looking at \<open>derived\<close>.
\<close>

fun issubclass_tuple :: "annotation \<Rightarrow> cls list \<Rightarrow> error + bool" where
  "issubclass_tuple derived [] = Inr False"
| "issubclass_tuple derived (c # cs) =
     (case issubclass derived c of
        Inl e \<Rightarrow> Inl e
      | Inr True \<Rightarrow> Inr True
      | Inr False \<Rightarrow> issubclass_tuple derived cs)"

text \<open>
  \<open>x in (c1, ..., cn)\<close> for a tuple of classes is true when \<open>x\<close> is, or compares equal
  to, a member: a class is equal to itself only, and an object that is not a class
  answers by its own \<open>==\<close>.
\<close>

fun py_in :: "annotation \<Rightarrow> cls list \<Rightarrow> bool" where
  "py_in (ClassAnn c) cs = (c \<in> set cs)"
| "py_in Signature_empty cs = (Class ''_empty'' [py_object] \<in> set cs)"
| "py_in (ValueAnn v (Eq_to ds)) cs = (\<exists>c\<in>set cs. c \<in> set ds)"
| "py_in (ValueAnn v Eq_any) cs = (cs \<noteq> [])"

section \<open>Routes, views and the schema objects\<close>

text \<open>
  The rendering library's schemas: \<open>coreschema.String()\<close>, \<open>coreschema.Object\<close> with its
  properties (a dictionary, kept in insertion order) and its list of required names, and
  every other schema by name.
\<close>

datatype coreschema =
    String
  | Object "(string \<times> coreschema) list" "string list"
  | OtherSchema string

record param =
  param_name :: string
  param_annotation :: annotation

text \<open>
  A view is a function object: its identity, its \<open>__name__\<close>, the attribute
  \<open>exclude_from_schema\<close> (\<open>None\<close> when the function has no such attribute, otherwise the
  truth value of what is stored there) and the parameters \<open>inspect.signature\<close> reports,
  in order.
\<close>

record view =
  view_id :: nat
  view_name :: string
  attr_exclude_from_schema :: "bool option"
  signature_parameters :: "param list"

record route =
  route_path :: string
  route_method :: string
  route_view :: view

record field =
  field_name :: string
  field_location :: string
  field_required :: bool
  field_schema :: "coreschema option"

record link =
  link_url :: string
  link_action :: string
  link_fields :: "field list"

text \<open>
  What the module imports and does not define: the tuples \<open>primitive_types\<close> and
  \<open>schema_types\<close> of \<open>apistar.routing\<close>, the class \<open>schema.Object\<close>, the variable names
  \<open>URITemplate(path).variable_names\<close> of a path, \<open>urllib.parse.urljoin\<close> (on two
  strings, as the annotation \<open>http.URL\<close> of \<open>base_url\<close> says) and
  \<open>coreschema.render_to_form\<close>. They are parameters of the model.
\<close>

record env =
  primitive_types :: "cls list"
  schema_types :: "cls list"
  schema_Object :: cls
  variable_names :: "string \<Rightarrow> string list"
  urljoin :: "string \<Rightarrow> string \<Rightarrow> string"
  render_to_form :: "coreschema \<Rightarrow> string"

section \<open>get_link\<close>

text \<open>Lines 66-69: a missing annotation stands for \<open>str\<close>.\<close>

definition annotated_type :: "param \<Rightarrow> annotation" where
  "annotated_type p =
     (if param_annotation p = Signature_empty then ClassAnn py_str else param_annotation p)"

text \<open>
  Lines 71-85: the location and the required flag of one parameter. \<open>names\<close> is
  \<open>uritemplate.variable_names\<close>. The \<open>or\<close> of line 77 does not evaluate the subclass test
  when the membership test is true.
\<close>

definition classify ::
  "env \<Rightarrow> string \<Rightarrow> string list \<Rightarrow> param \<Rightarrow> error + (string option \<times> bool)" where
  "classify e meth names p =
     (if param_name p \<in> set names then Inr (Some ''path'', True)
      else
        (case (if py_in (annotated_type p) (primitive_types e) then Inr True
               else issubclass_tuple (annotated_type p) (schema_types e)) of
           Inl err \<Rightarrow> Inl err
         | Inr True \<Rightarrow>
             (if meth \<in> set [''POST'', ''PUT'', ''PATCH'']
              then (case issubclass (annotated_type p) (schema_Object e) of
                      Inl err \<Rightarrow> Inl err
                    | Inr True \<Rightarrow> Inr (Some ''body'', True)
                    | Inr False \<Rightarrow> Inr (Some ''form'', False))
              else Inr (Some ''query'', False))
         | Inr False \<Rightarrow> Inr (None, False)))"

text \<open>
  Lines 64-89: the loop over the parameters; \<open>flds\<close> is the list \<open>fields\<close> built so far, and a
  parameter with a location is appended with the schema \<open>coreschema.String()\<close>.
\<close>

fun get_link_loop ::
  "env \<Rightarrow> string \<Rightarrow> string list \<Rightarrow> param list \<Rightarrow> field list \<Rightarrow> error + field list" where
  "get_link_loop e meth names [] flds = Inr flds"
| "get_link_loop e meth names (p # ps) flds =
     (case classify e meth names p of
        Inl err \<Rightarrow> Inl err
      | Inr (None, required) \<Rightarrow> get_link_loop e meth names ps flds
      | Inr (Some location, required) \<Rightarrow>
          get_link_loop e meth names ps
            (flds @ [\<lparr>field_name = param_name p, field_location = location,
                        field_required = required, field_schema = Some String\<rparr>]))"

definition get_link :: "env \<Rightarrow> route \<Rightarrow> error + link" where
  "get_link e r =
     (case get_link_loop e (route_method r) (variable_names e (route_path r))
             (signature_parameters (route_view r)) [] of
        Inl err \<Rightarrow> Inl err
      | Inr flds \<Rightarrow>
          Inr \<lparr>link_url = route_path r, link_action = route_method r, link_fields = flds\<rparr>)"

section \<open>The schema-serving views\<close>

text \<open>
  Modelled from the spec: the decorator \<open>exclude_from_schema\<close> of \<open>apistar.decorators\<close> is
  not among the sources. The views it decorates are the "views marked
  exclude_from_schema": it stores a true \<open>exclude_from_schema\<close> attribute on the function
  and returns the same function.
\<close>

definition exclude_from_schema :: "view \<Rightarrow> view" where
  "exclude_from_schema func = func\<lparr>attr_exclude_from_schema := Some True\<rparr>"

text \<open>
  The classes the three views are annotated with. \<open>APISchema\<close> is the class of line 18;
  the bases of the imported classes are not in this module and are left at \<open>object\<close>.
\<close>

definition Document :: cls where
  "Document = Class ''Document'' [py_object]"

definition APISchema :: cls where
  "APISchema = Class ''APISchema'' [Document]"

definition Templates :: cls where
  "Templates = Class ''Templates'' [py_object]"

definition serve_schema :: view where
  "serve_schema = exclude_from_schema
     \<lparr>view_id = 1, view_name = ''serve_schema'', attr_exclude_from_schema = None,
      signature_parameters =
        [\<lparr>param_name = ''schema'', param_annotation = ClassAnn APISchema\<rparr>]\<rparr>"

definition serve_schema_js :: view where
  "serve_schema_js = exclude_from_schema
     \<lparr>view_id = 2, view_name = ''serve_schema_js'', attr_exclude_from_schema = None,
      signature_parameters =
        [\<lparr>param_name = ''schema'', param_annotation = ClassAnn APISchema\<rparr>,
         \<lparr>param_name = ''templates'', param_annotation = ClassAnn Templates\<rparr>]\<rparr>"

definition serve_docs :: view where
  "serve_docs = exclude_from_schema
     \<lparr>view_id = 3, view_name = ''serve_docs'', attr_exclude_from_schema = None,
      signature_parameters =
        [\<lparr>param_name = ''schema'', param_annotation = ClassAnn APISchema\<rparr>,
         \<lparr>param_name = ''templates'', param_annotation = ClassAnn Templates\<rparr>]\<rparr>"

section \<open>get_schema_url and get_schema_content\<close>

text \<open>\<open>view is serve_schema\<close> compares the identity of the two function objects.\<close>

definition py_is :: "view \<Rightarrow> view \<Rightarrow> bool" where
  "py_is v w = (view_id v = view_id w)"

fun get_schema_url :: "env \<Rightarrow> route list \<Rightarrow> string \<Rightarrow> string option" where
  "get_schema_url e [] base_url = None"
| "get_schema_url e (r # routes) base_url =
     (if py_is (route_view r) serve_schema then Some (urljoin e base_url (route_path r))
      else get_schema_url e routes base_url)"

text \<open>Line 45: \<open>getattr(view, 'exclude_from_schema', False)\<close> as a condition.\<close>

definition getattr_exclude_from_schema :: "view \<Rightarrow> bool" where
  "getattr_exclude_from_schema v =
     (case attr_exclude_from_schema v of None \<Rightarrow> False | Some b \<Rightarrow> b)"

text \<open>
  Lines 43-49. The dictionary \<open>content\<close> is kept in insertion order; \<open>content[name] = link\<close>
  replaces the value of a key that is present and appends a new key otherwise, which is
  \<open>AList.update\<close>. An exception of \<open>get_link\<close> ends the loop.
\<close>

fun get_schema_content_loop ::
  "env \<Rightarrow> route list \<Rightarrow> (string \<times> link) list \<Rightarrow> error + (string \<times> link) list" where
  "get_schema_content_loop e [] content = Inr content"
| "get_schema_content_loop e (r # routes) content =
     (if getattr_exclude_from_schema (route_view r)
      then get_schema_content_loop e routes content
      else (case get_link e r of
              Inl err \<Rightarrow> Inl err
            | Inr l \<Rightarrow>
                get_schema_content_loop e routes
                  (AList.update (view_name (route_view r)) l content)))"

definition get_schema_content :: "env \<Rightarrow> route list \<Rightarrow> error + (string \<times> link) list" where
  "get_schema_content e routes = get_schema_content_loop e routes []"

section \<open>render_form\<close>

text \<open>
  Lines 95-100: \<open>dict\<close> of the pairs stores them in order, a later pair replacing the value
  of an earlier one with the same name; \<open>field.schema or coreschema.String()\<close> is the
  string schema when the field has no schema (a schema object itself is always true).
\<close>

definition schema_or_String :: "field \<Rightarrow> coreschema" where
  "schema_or_String f = (case field_schema f of None \<Rightarrow> String | Some s \<Rightarrow> s)"

definition render_form_schema :: "link \<Rightarrow> coreschema" where
  "render_form_schema l =
     Object (fold (\<lambda>f properties. AList.update (field_name f) (schema_or_String f) properties)
               (link_fields l) [])
            []"

definition render_form :: "env \<Rightarrow> link \<Rightarrow> string" where
  "render_form e l = render_to_form e (render_form_schema l)"

section \<open>An environment to evaluate the model in\<close>

text \<open>
  The builtin classes and the classes of \<open>apistar.schema\<close> with their bases, a class
  \<open>User\<close> declared as \<open>class User(schema.Object)\<close>, and the external functions on the
  inputs the examples below use: the variable names of three paths, and \<open>urljoin\<close> of a
  base without a path and an absolute path, which appends the path.
\<close>

definition py_int :: cls where
  "py_int = Class ''int'' [py_object]"

definition py_float :: cls where
  "py_float = Class ''float'' [py_object]"

definition py_bool :: cls where
  "py_bool = Class ''bool'' [py_int]"

definition py_list :: cls where
  "py_list = Class ''list'' [py_object]"

definition py_dict :: cls where
  "py_dict = Class ''dict'' [py_object]"

definition example_Object :: cls where
  "example_Object = Class ''Object'' [py_dict]"

definition example_User :: cls where
  "example_User = Class ''User'' [example_Object]"

definition example_env :: env where
  "example_env =
     \<lparr>primitive_types = [py_str, py_int, py_float, py_bool, py_list, py_dict],
      schema_types =
        [Class ''String'' [py_str], Class ''Integer'' [py_int], Class ''Number'' [py_float],
         Class ''Boolean'' [py_object], example_Object],
      schema_Object = example_Object,
      variable_names =
        (\<lambda>path. if path = ''/users/{user_id}/'' then [''user_id'']
                else if path = ''/users/{user_id}/notes/{note}/'' then [''user_id'', ''note'']
                else []),
      urljoin = (\<lambda>base url. base @ url),
      render_to_form = (\<lambda>s. case s of Object properties required \<Rightarrow>
                                 concat (map fst properties) | _ \<Rightarrow> [])\<rparr>"

text \<open>
  A handler \<open>update_user(user_id: int, user: User, notify: bool, comment, session: Session)\<close>
  routed at \<open>PUT /users/{user_id}/\<close>.
\<close>

definition example_update_user :: view where
  "example_update_user =
     \<lparr>view_id = 10, view_name = ''update_user'', attr_exclude_from_schema = None,
      signature_parameters =
        [\<lparr>param_name = ''user_id'', param_annotation = ClassAnn py_int\<rparr>,
         \<lparr>param_name = ''user'', param_annotation = ClassAnn example_User\<rparr>,
         \<lparr>param_name = ''notify'', param_annotation = ClassAnn py_bool\<rparr>,
         \<lparr>param_name = ''comment'', param_annotation = Signature_empty\<rparr>,
         \<lparr>param_name = ''session'',
          param_annotation = ClassAnn (Class ''Session'' [py_object])\<rparr>]\<rparr>"

definition example_put_user :: route where
  "example_put_user =
     \<lparr>route_path = ''/users/{user_id}/'', route_method = ''PUT'',
      route_view = example_update_user\<rparr>"

text \<open>
  A handler \<open>get_note(user_id: 'UserId', note: Note)\<close>, its first annotation a string,
  routed at \<open>GET /users/{user_id}/notes/{note}/\<close>; and a handler
  \<open>list_users(page: 'int')\<close>, its annotation the string \<open>'int'\<close>, routed at
  \<open>GET /users/\<close>.
\<close>

definition example_get_note :: route where
  "example_get_note =
     \<lparr>route_path = ''/users/{user_id}/notes/{note}/'', route_method = ''GET'',
      route_view =
        \<lparr>view_id = 11, view_name = ''get_note'', attr_exclude_from_schema = None,
         signature_parameters =
           [\<lparr>param_name = ''user_id'', param_annotation = ValueAnn ''UserId'' (Eq_to [])\<rparr>,
            \<lparr>param_name = ''note'',
             param_annotation = ClassAnn (Class ''Note'' [py_object])\<rparr>]\<rparr>\<rparr>"

definition example_list_users :: route where
  "example_list_users =
     \<lparr>route_path = ''/users/'', route_method = ''GET'',
      route_view =
        \<lparr>view_id = 12, view_name = ''list_users'', attr_exclude_from_schema = None,
         signature_parameters =
           [\<lparr>param_name = ''page'', param_annotation = ValueAnn ''int'' (Eq_to [])\<rparr>]\<rparr>\<rparr>"

text \<open>
  A handler \<open>search(q: mock.ANY)\<close>, whose annotation is no class and compares equal to
  every object, routed at \<open>GET /search/\<close> and at \<open>POST /search/\<close>.
\<close>

definition example_search :: view where
  "example_search =
     \<lparr>view_id = 14, view_name = ''search'', attr_exclude_from_schema = None,
      signature_parameters =
        [\<lparr>param_name = ''q'', param_annotation = ValueAnn ''ANY'' Eq_any\<rparr>]\<rparr>"

definition example_get_search :: route where
  "example_get_search =
     \<lparr>route_path = ''/search/'', route_method = ''GET'', route_view = example_search\<rparr>"

definition example_post_search :: route where
  "example_post_search =
     \<lparr>route_path = ''/search/'', route_method = ''POST'', route_view = example_search\<rparr>"

text \<open>
  The route whose handler has every missing annotation written out as \<open>str\<close>.
\<close>

definition with_str_annotations :: "route \<Rightarrow> route" where
  "with_str_annotations r =
     r\<lparr>route_view := (route_view r)
         \<lparr>signature_parameters :=
            map (\<lambda>p. if param_annotation p = Signature_empty
                      then p\<lparr>param_annotation := ClassAnn py_str\<rparr> else p)
                (signature_parameters (route_view r))\<rparr>\<rparr>"

lemmas example_defs =
  example_put_user_def example_get_note_def example_list_users_def
  example_search_def example_get_search_def example_post_search_def example_update_user_def example_env_def example_User_def
  example_Object_def py_dict_def py_list_def py_bool_def py_float_def py_int_def py_str_def
  py_object_def

text \<open>
  The same handler routed a second time with PATCH; the schema and the documentation
  views at their routes; and a handler of the application that is also called
  \<open>serve_docs\<close>, takes no parameter and is not excluded from the schema.
\<close>

definition example_patch_user :: route where
  "example_patch_user =
     \<lparr>route_path = ''/users/{user_id}/'', route_method = ''PATCH'',
      route_view = example_update_user\<rparr>"

definition example_schema_route :: route where
  "example_schema_route =
     \<lparr>route_path = ''/schema/'', route_method = ''GET'', route_view = serve_schema\<rparr>"

definition example_docs_route :: route where
  "example_docs_route =
     \<lparr>route_path = ''/docs/'', route_method = ''GET'', route_view = serve_docs\<rparr>"

definition example_manual_route :: route where
  "example_manual_route =
     \<lparr>route_path = ''/manual/'', route_method = ''GET'',
      route_view =
        \<lparr>view_id = 13, view_name = ''serve_docs'', attr_exclude_from_schema = None,
         signature_parameters = []\<rparr>\<rparr>"

lemmas example_route_defs =
  example_patch_user_def example_schema_route_def example_docs_route_def
  example_manual_route_def serve_schema_def serve_schema_js_def serve_docs_def
  exclude_from_schema_def APISchema_def Document_def Templates_def

text \<open>The links of the handler \<open>update_user\<close> at its two routes.\<close>

definition example_user_fields :: "field list" where
  "example_user_fields =
     [\<lparr>field_name = ''user_id'', field_location = ''path'',
       field_required = True, field_schema = Some String\<rparr>,
      \<lparr>field_name = ''user'', field_location = ''body'',
       field_required = True, field_schema = Some String\<rparr>,
      \<lparr>field_name = ''notify'', field_location = ''form'',
       field_required = False, field_schema = Some String\<rparr>,
      \<lparr>field_name = ''comment'', field_location = ''form'',
       field_required = False, field_schema = Some String\<rparr>]"

definition example_put_link :: link where
  "example_put_link =
     \<lparr>link_url = ''/users/{user_id}/'', link_action = ''PUT'',
      link_fields = example_user_fields\<rparr>"

definition example_patch_link :: link where
  "example_patch_link =
     \<lparr>link_url = ''/users/{user_id}/'', link_action = ''PATCH'',
      link_fields = example_user_fields\<rparr>"

text \<open>
  The fields one turn of the loop of \<open>get_link\<close> appends for a parameter: the field of
  the parameter when it has a location, nothing otherwise.
\<close>

definition param_fields :: "env \<Rightarrow> string \<Rightarrow> string list \<Rightarrow> param \<Rightarrow> field list" where
  "param_fields e meth names p =
     (case classify e meth names p of
        Inr (Some location, required) \<Rightarrow>
          [\<lparr>field_name = param_name p, field_location = location,
            field_required = required, field_schema = Some String\<rparr>]
      | _ \<Rightarrow> [])"

section \<open>Facts about get_link\<close>

lemma issubclass_tuple_class:
  "issubclass_tuple (ClassAnn c) ds = Inr (\<exists>d\<in>set ds. d \<in> set (ancestors c))"
  by (induction ds) (auto split: bool.splits)


lemma get_link_loop_eq:
  "get_link_loop e meth names ps flds =
     (if \<exists>p\<in>set ps. classify e meth names p = Inl TypeError then Inl TypeError
      else Inr (flds @ concat (map (param_fields e meth names) ps)))"
proof (induction ps arbitrary: flds)
  case Nil
  show ?case by simp
next
  case (Cons p ps)
  show ?case
  proof (cases "classify e meth names p")
    case (Inl err)
    then show ?thesis by (cases err) simp
  next
    case (Inr lr)
    then show ?thesis
      by (cases lr; cases "fst lr") (simp_all add: Cons.IH param_fields_def)
  qed
qed


lemma param_fields_name:
  "f \<in> set (param_fields e meth names q) \<Longrightarrow> field_name f = param_name q"
  by (auto simp: param_fields_def split: sum.splits option.splits prod.splits)

lemma filter_param_fields:
  "filter (\<lambda>f. field_name f = n) (concat (map (param_fields e meth names) ps)) =
   concat (map (param_fields e meth names) (filter (\<lambda>q. param_name q = n) ps))"
proof (induction ps)
  case Nil
  show ?case by simp
next
  case (Cons q qs)
  have "filter (\<lambda>f. field_name f = n) (param_fields e meth names q) =
        (if param_name q = n then param_fields e meth names q else [])"
    by (auto simp: filter_empty_conv param_fields_name
            intro!: filter_True)
  with Cons show ?case by simp
qed

lemma filter_distinct_key:
  "distinct (map k xs) \<Longrightarrow> x \<in> set xs \<Longrightarrow> filter (\<lambda>y. k y = k x) xs = [x]"
proof (induction xs)
  case Nil
  then show ?case by simp
next
  case (Cons y ys)
  show ?case
  proof (cases "y = x")
    case True
    with Cons.prems have "\<forall>z\<in>set ys. k z \<noteq> k x" by (auto simp: image_iff)
    then have "filter (\<lambda>y. k y = k x) ys = []" by (simp add: filter_empty_conv)
    with True show ?thesis by simp
  next
    case False
    with Cons.prems have "x \<in> set ys" "k y \<noteq> k x" by (auto simp: image_iff)
    with Cons show ?thesis by simp
  qed
qed

lemma get_link_Inr:
  "get_link e r = Inr l \<Longrightarrow>
   l = \<lparr>link_url = route_path r, link_action = route_method r,
        link_fields = concat (map (param_fields e (route_method r)
                        (variable_names e (route_path r)))
                        (signature_parameters (route_view r)))\<rparr>"
  by (auto simp: get_link_def get_link_loop_eq split: if_splits)

lemma classify_class:
  "param_name p \<notin> set names \<Longrightarrow> annotated_type p = ClassAnn c \<Longrightarrow>
   c \<in> set (primitive_types e) \<or> (\<exists>d\<in>set (schema_types e). d \<in> set (ancestors c)) \<Longrightarrow>
   classify e meth names p =
     Inr (if meth \<in> set [''POST'', ''PUT'', ''PATCH'']
          then if schema_Object e \<in> set (ancestors c)
               then (Some ''body'', True) else (Some ''form'', False)
          else (Some ''query'', False))"
proof -
  assume n: "param_name p \<notin> set names" and a: "annotated_type p = ClassAnn c"
    and t: "c \<in> set (primitive_types e) \<or> (\<exists>d\<in>set (schema_types e). d \<in> set (ancestors c))"
  show ?thesis
  proof (cases "c \<in> set (primitive_types e)")
    case True
    then show ?thesis by (simp add: classify_def n a)
  next
    case False
    with t have "\<exists>d\<in>set (schema_types e). d \<in> set (ancestors c)" by simp
    with False show ?thesis by (simp add: classify_def n a issubclass_tuple_class)
  qed
qed

text \<open>
  C1. A parameter of the handler whose name is not a variable of the route's URI template
  and whose annotated type (\<open>str\<close> when the annotation is missing) is one of the
  primitive types or a subclass of one of the schema types gets the location \<open>body\<close>,
  required, when the method is POST, PUT or PATCH and the type is a subclass of
  \<open>schema.Object\<close>; \<open>form\<close>, not required, when the method is one of the three and the
  type is no such subclass; \<open>query\<close>, not required, for every other method. In the link
  \<open>get_link\<close> returns, the parameter has that one field and no other.
\<close>

theorem get_link_location_by_method:
  assumes "p \<in> set (signature_parameters (route_view r))"
    and "param_name p \<notin> set (variable_names e (route_path r))"
    and "annotated_type p = ClassAnn c"
    and "c \<in> set (primitive_types e) \<or> (\<exists>d\<in>set (schema_types e). d \<in> set (ancestors c))"
  shows "classify e (route_method r) (variable_names e (route_path r)) p =
           Inr (if route_method r \<in> set [''POST'', ''PUT'', ''PATCH'']
                then if schema_Object e \<in> set (ancestors c)
                     then (Some ''body'', True) else (Some ''form'', False)
                else (Some ''query'', False))
         \<and> (\<forall>l. get_link e r = Inr l \<longrightarrow>
                distinct (map param_name (signature_parameters (route_view r))) \<longrightarrow>
                filter (\<lambda>f. field_name f = param_name p) (link_fields l) =
                  [\<lparr>field_name = param_name p,
                    field_location =
                      (if route_method r \<in> set [''POST'', ''PUT'', ''PATCH'']
                       then if schema_Object e \<in> set (ancestors c) then ''body'' else ''form''
                       else ''query''),
                    field_required =
                      (route_method r \<in> set [''POST'', ''PUT'', ''PATCH'']
                       \<and> schema_Object e \<in> set (ancestors c)),
                    field_schema = Some String\<rparr>])"
proof (intro conjI allI impI)
  show c: "classify e (route_method r) (variable_names e (route_path r)) p =
           Inr (if route_method r \<in> set [''POST'', ''PUT'', ''PATCH'']
                then if schema_Object e \<in> set (ancestors c)
                     then (Some ''body'', True) else (Some ''form'', False)
                else (Some ''query'', False))"
    using assms(2-4) by (rule classify_class)
  fix l
  assume l: "get_link e r = Inr l"
    and d: "distinct (map param_name (signature_parameters (route_view r)))"
  have "filter (\<lambda>f. field_name f = param_name p) (link_fields l) =
        param_fields e (route_method r) (variable_names e (route_path r)) p"
    using get_link_Inr [OF l] filter_distinct_key [OF d assms(1)]
    by (simp add: filter_param_fields)
  then show "filter (\<lambda>f. field_name f = param_name p) (link_fields l) =
                  [\<lparr>field_name = param_name p,
                    field_location =
                      (if route_method r \<in> set [''POST'', ''PUT'', ''PATCH'']
                       then if schema_Object e \<in> set (ancestors c) then ''body'' else ''form''
                       else ''query''),
                    field_required =
                      (route_method r \<in> set [''POST'', ''PUT'', ''PATCH'']
                       \<and> schema_Object e \<in> set (ancestors c)),
                    field_schema = Some String\<rparr>]"
    by (simp add: param_fields_def c)
qed

theorem get_link_location_by_method_witness:
  "get_link example_env example_put_user =
     Inr \<lparr>link_url = ''/users/{user_id}/'', link_action = ''PUT'',
          link_fields =
            [\<lparr>field_name = ''user_id'', field_location = ''path'',
              field_required = True, field_schema = Some String\<rparr>,
             \<lparr>field_name = ''user'', field_location = ''body'',
              field_required = True, field_schema = Some String\<rparr>,
             \<lparr>field_name = ''notify'', field_location = ''form'',
              field_required = False, field_schema = Some String\<rparr>,
             \<lparr>field_name = ''comment'', field_location = ''form'',
              field_required = False, field_schema = Some String\<rparr>]\<rparr>
   \<and> classify example_env ''PUT'' [''user_id'']
       \<lparr>param_name = ''user'', param_annotation = ClassAnn example_User\<rparr> =
       Inr (Some ''body'', True)
   \<and> filter (\<lambda>f. field_name f = ''user'')
        [\<lparr>field_name = ''user_id'', field_location = ''path'',
          field_required = True, field_schema = Some String\<rparr>,
         \<lparr>field_name = ''user'', field_location = ''body'',
          field_required = True, field_schema = Some String\<rparr>,
         \<lparr>field_name = ''notify'', field_location = ''form'',
          field_required = False, field_schema = Some String\<rparr>,
         \<lparr>field_name = ''comment'', field_location = ''form'',
          field_required = False, field_schema = Some String\<rparr>] =
       [\<lparr>field_name = ''user'', field_location = ''body'',
         field_required = True, field_schema = Some String\<rparr>]"
proof -
  let ?p = "\<lparr>param_name = ''user'', param_annotation = ClassAnn example_User\<rparr>"
  let ?l = "\<lparr>link_url = ''/users/{user_id}/'', link_action = ''PUT'',
           link_fields =
             [\<lparr>field_name = ''user_id'', field_location = ''path'',
               field_required = True, field_schema = Some String\<rparr>,
              \<lparr>field_name = ''user'', field_location = ''body'',
               field_required = True, field_schema = Some String\<rparr>,
              \<lparr>field_name = ''notify'', field_location = ''form'',
               field_required = False, field_schema = Some String\<rparr>,
              \<lparr>field_name = ''comment'', field_location = ''form'',
               field_required = False, field_schema = Some String\<rparr>]\<rparr>"
  have 1: "?p \<in> set (signature_parameters (route_view example_put_user))"
    by (simp add: example_defs)
  have 2: "param_name ?p \<notin> set (variable_names example_env (route_path example_put_user))"
    by (simp add: example_defs)
  have 3: "annotated_type ?p = ClassAnn example_User"
    by (simp add: annotated_type_def)
  have 4: "example_User \<in> set (primitive_types example_env) \<or>
           (\<exists>d\<in>set (schema_types example_env). d \<in> set (ancestors example_User))"
    by (simp add: example_defs)
  have 5: "get_link example_env example_put_user = Inr ?l"
    by code_simp
  have 6: "distinct (map param_name (signature_parameters (route_view example_put_user)))"
    by (simp add: example_defs)
  have 7: "schema_Object example_env \<in> set (ancestors example_User)"
    by (simp add: example_defs)
  from get_link_location_by_method [OF 1 2 3 4] 5 6 7 show ?thesis
    by (simp add: example_defs)
qed

text \<open>
  C2. A parameter of the handler whose name is among the variable names of the URI
  template of the route's path gets the location \<open>path\<close> and is required, whatever
  its annotation (a class or not, or none) and whatever the method; the link \<open>get_link\<close>
  returns holds that field for it.
\<close>

theorem get_link_path_parameter:
  assumes "p \<in> set (signature_parameters (route_view r))"
    and "param_name p \<in> set (variable_names e (route_path r))"
  shows "classify e (route_method r) (variable_names e (route_path r)) p =
           Inr (Some ''path'', True)
         \<and> (\<forall>l. get_link e r = Inr l \<longrightarrow>
                \<lparr>field_name = param_name p, field_location = ''path'',
                 field_required = True, field_schema = Some String\<rparr> \<in> set (link_fields l)
                \<and> (distinct (map param_name (signature_parameters (route_view r))) \<longrightarrow>
                     filter (\<lambda>f. field_name f = param_name p) (link_fields l) =
                       [\<lparr>field_name = param_name p, field_location = ''path'',
                         field_required = True, field_schema = Some String\<rparr>]))"
proof (intro conjI allI impI)
  show c: "classify e (route_method r) (variable_names e (route_path r)) p =
           Inr (Some ''path'', True)"
    using assms(2) by (simp add: classify_def)
  then have pf: "param_fields e (route_method r) (variable_names e (route_path r)) p =
        [\<lparr>field_name = param_name p, field_location = ''path'',
          field_required = True, field_schema = Some String\<rparr>]"
    by (simp add: param_fields_def)
  fix l
  assume l: "get_link e r = Inr l"
  show "\<lparr>field_name = param_name p, field_location = ''path'',
         field_required = True, field_schema = Some String\<rparr> \<in> set (link_fields l)"
    using get_link_Inr [OF l] assms(1) pf by force
  assume d: "distinct (map param_name (signature_parameters (route_view r)))"
  show "filter (\<lambda>f. field_name f = param_name p) (link_fields l) =
          [\<lparr>field_name = param_name p, field_location = ''path'',
            field_required = True, field_schema = Some String\<rparr>]"
    using get_link_Inr [OF l] filter_distinct_key [OF d assms(1)] pf
    by (simp add: filter_param_fields)
qed

theorem get_link_path_parameter_witness:
  "classify example_env ''GET'' [''user_id'', ''note'']
     \<lparr>param_name = ''user_id'', param_annotation = ValueAnn ''UserId'' (Eq_to [])\<rparr> =
     Inr (Some ''path'', True)
   \<and> get_link example_env example_get_note =
     Inr \<lparr>link_url = ''/users/{user_id}/notes/{note}/'', link_action = ''GET'',
          link_fields =
            [\<lparr>field_name = ''user_id'', field_location = ''path'',
              field_required = True, field_schema = Some String\<rparr>,
             \<lparr>field_name = ''note'', field_location = ''path'',
              field_required = True, field_schema = Some String\<rparr>]\<rparr>
   \<and> \<lparr>field_name = ''user_id'', field_location = ''path'',
       field_required = True, field_schema = Some String\<rparr>
     \<in> set [\<lparr>field_name = ''user_id'', field_location = ''path'',
              field_required = True, field_schema = Some String\<rparr>,
             \<lparr>field_name = ''note'', field_location = ''path'',
              field_required = True, field_schema = Some String\<rparr>]"
proof -
  let ?p = "\<lparr>param_name = ''user_id'', param_annotation = ValueAnn ''UserId'' (Eq_to [])\<rparr>"
  have 1: "?p \<in> set (signature_parameters (route_view example_get_note))"
    by (simp add: example_defs)
  have 2: "param_name ?p \<in> set (variable_names example_env (route_path example_get_note))"
    by (simp add: example_defs)
  have 3: "get_link example_env example_get_note =
     Inr \<lparr>link_url = ''/users/{user_id}/notes/{note}/'', link_action = ''GET'',
          link_fields =
            [\<lparr>field_name = ''user_id'', field_location = ''path'',
              field_required = True, field_schema = Some String\<rparr>,
             \<lparr>field_name = ''note'', field_location = ''path'',
              field_required = True, field_schema = Some String\<rparr>]\<rparr>"
    by code_simp
  from get_link_path_parameter [OF 1 2] 3 show ?thesis
    by (simp add: example_defs)
qed

lemma classify_cong:
  assumes "param_name p = param_name q" and "annotated_type p = annotated_type q"
  shows "classify e meth names p = classify e meth names q"
  unfolding classify_def assms by (rule refl)


lemma get_link_loop_map_cong:
  assumes "\<And>p. param_name (g p) = param_name p"
    and "\<And>p. annotated_type (g p) = annotated_type p"
  shows "get_link_loop e meth names (map g ps) flds = get_link_loop e meth names ps flds"
proof -
  have c: "classify e meth names (g p) = classify e meth names p" for p
    by (rule classify_cong) (rule assms)+
  have "param_fields e meth names (g p) = param_fields e meth names p" for p
    unfolding param_fields_def c assms by (rule refl)
  then show ?thesis
    by (simp add: get_link_loop_eq c comp_def)
qed

lemma link_fields_schema:
  "get_link e r = Inr l \<Longrightarrow> f \<in> set (link_fields l) \<Longrightarrow> field_schema f = Some String"
  by (drule get_link_Inr)
     (auto simp: param_fields_def split: sum.splits option.splits prod.splits)

text \<open>
  C3. A parameter with no annotation (\<open>inspect.Signature.empty\<close>) is treated as one
  annotated with \<open>str\<close>: its annotated type is \<open>str\<close>, it gets the location and the
  required flag of the same parameter annotated \<open>str\<close>, and \<open>get_link\<close> returns for a
  route what it returns when every missing annotation of the handler is written out as
  \<open>str\<close>. The schema of every field of a link is the string schema.
\<close>

theorem get_link_missing_annotation_is_str:
  "annotated_type (p\<lparr>param_annotation := Signature_empty\<rparr>) = ClassAnn py_str
   \<and> classify e meth names (p\<lparr>param_annotation := Signature_empty\<rparr>) =
     classify e meth names (p\<lparr>param_annotation := ClassAnn py_str\<rparr>)
   \<and> get_link e (with_str_annotations r) = get_link e r
   \<and> (\<forall>l. get_link e r = Inr l \<longrightarrow>
          (\<forall>f\<in>set (link_fields l). field_schema f = Some String))"
proof (intro conjI allI impI ballI)
  show "annotated_type (p\<lparr>param_annotation := Signature_empty\<rparr>) = ClassAnn py_str"
    by (simp add: annotated_type_def)
  show "classify e meth names (p\<lparr>param_annotation := Signature_empty\<rparr>) =
        classify e meth names (p\<lparr>param_annotation := ClassAnn py_str\<rparr>)"
    by (rule classify_cong) (simp_all add: annotated_type_def)
  have "get_link_loop e (route_method r) (variable_names e (route_path r))
          (map (\<lambda>p. if param_annotation p = Signature_empty
                     then p\<lparr>param_annotation := ClassAnn py_str\<rparr> else p)
               (signature_parameters (route_view r))) [] =
        get_link_loop e (route_method r) (variable_names e (route_path r))
          (signature_parameters (route_view r)) []"
    by (rule get_link_loop_map_cong) (simp_all add: annotated_type_def)
  then show "get_link e (with_str_annotations r) = get_link e r"
    by (simp add: get_link_def with_str_annotations_def cong: sum.case_cong)
next
  fix l f
  assume "get_link e r = Inr l" and "f \<in> set (link_fields l)"
  then show "field_schema f = Some String"
    by (rule link_fields_schema)
qed

theorem get_link_missing_annotation_is_str_witness:
  "classify example_env ''PUT'' [''user_id'']
     \<lparr>param_name = ''comment'', param_annotation = Signature_empty\<rparr> =
     Inr (Some ''form'', False)
   \<and> classify example_env ''PUT'' [''user_id'']
     \<lparr>param_name = ''comment'', param_annotation = ClassAnn py_str\<rparr> =
     Inr (Some ''form'', False)
   \<and> get_link example_env (with_str_annotations example_put_user) =
     get_link example_env example_put_user
   \<and> list_all (\<lambda>f. field_schema f = Some String)
       [\<lparr>field_name = ''user_id'', field_location = ''path'',
         field_required = True, field_schema = Some String\<rparr>,
        \<lparr>field_name = ''user'', field_location = ''body'',
         field_required = True, field_schema = Some String\<rparr>,
        \<lparr>field_name = ''notify'', field_location = ''form'',
         field_required = False, field_schema = Some String\<rparr>,
        \<lparr>field_name = ''comment'', field_location = ''form'',
         field_required = False, field_schema = Some String\<rparr>]"
proof -
  have 1: "classify example_env ''PUT'' [''user_id'']
     \<lparr>param_name = ''comment'', param_annotation = ClassAnn py_str\<rparr> =
     Inr (Some ''form'', False)"
    by code_simp
  have 2: "get_link example_env example_put_user =
     Inr \<lparr>link_url = ''/users/{user_id}/'', link_action = ''PUT'',
          link_fields =
            [\<lparr>field_name = ''user_id'', field_location = ''path'',
              field_required = True, field_schema = Some String\<rparr>,
             \<lparr>field_name = ''user'', field_location = ''body'',
              field_required = True, field_schema = Some String\<rparr>,
             \<lparr>field_name = ''notify'', field_location = ''form'',
              field_required = False, field_schema = Some String\<rparr>,
             \<lparr>field_name = ''comment'', field_location = ''form'',
              field_required = False, field_schema = Some String\<rparr>]\<rparr>"
    by code_simp
  from get_link_missing_annotation_is_str
         [of "\<lparr>param_name = ''comment'', param_annotation = Signature_empty\<rparr>"
             example_env "''PUT''" "[''user_id'']" example_put_user] 1 2
  show ?thesis by simp
qed




section \<open>Facts about get_schema_url and get_schema_content\<close>

lemma get_schema_url_find:
  "get_schema_url e routes base_url =
     map_option (\<lambda>r. urljoin e base_url (route_path r))
       (List.find (\<lambda>r. py_is (route_view r) serve_schema) routes)"
  by (induction routes) simp_all

text \<open>
  C8. \<open>get_schema_url\<close> returns \<open>None\<close> exactly when no route of the list has
  \<open>serve_schema\<close> as its view; otherwise it returns \<open>urljoin(base_url, path)\<close> for the
  path of the first route of the list whose view is \<open>serve_schema\<close>.
\<close>

theorem get_schema_url_first_serve_schema:
  "(get_schema_url e routes base_url = None \<longleftrightarrow>
      \<not> (\<exists>r\<in>set routes. py_is (route_view r) serve_schema))
   \<and> (\<forall>r. List.find (\<lambda>r. py_is (route_view r) serve_schema) routes = Some r \<longrightarrow>
          get_schema_url e routes base_url = Some (urljoin e base_url (route_path r)))"
  by (auto simp: get_schema_url_find find_None_iff)

theorem get_schema_url_first_serve_schema_witness:
  "get_schema_url example_env
     [example_docs_route, example_schema_route,
      example_schema_route\<lparr>route_path := ''/schema.json''\<rparr>] ''http://example.com'' =
     Some ''http://example.com/schema/''
   \<and> get_schema_url example_env [example_docs_route, example_put_user] ''http://example.com''
     = None"
proof -
  have 1: "List.find (\<lambda>r. py_is (route_view r) serve_schema)
             [example_docs_route, example_schema_route,
              example_schema_route\<lparr>route_path := ''/schema.json''\<rparr>] =
           Some example_schema_route"
    by (simp add: py_is_def example_route_defs)
  have 2: "\<not> (\<exists>r\<in>set [example_docs_route, example_put_user].
                py_is (route_view r) serve_schema)"
    by (simp add: py_is_def example_route_defs example_defs)
  from get_schema_url_first_serve_schema
         [of example_env "[example_docs_route, example_schema_route,
              example_schema_route\<lparr>route_path := ''/schema.json''\<rparr>]" "''http://example.com''"]
       get_schema_url_first_serve_schema
         [of example_env "[example_docs_route, example_put_user]" "''http://example.com''"]
       1 2
  show ?thesis
    by (simp add: example_route_defs example_defs)
qed

lemma get_schema_content_loop_ok:
  "get_schema_content_loop e routes content0 = Inr content \<Longrightarrow>
   r \<in> set routes \<Longrightarrow> \<not> getattr_exclude_from_schema (route_view r) \<Longrightarrow>
   \<exists>l. get_link e r = Inr l"
  by (induction routes arbitrary: content0) (auto split: if_splits sum.splits)

lemma get_schema_content_loop_map_of:
  "get_schema_content_loop e routes content0 = Inr content \<Longrightarrow>
   map_of content n =
     (case filter (\<lambda>r. \<not> getattr_exclude_from_schema (route_view r)
                        \<and> view_name (route_view r) = n) routes of
        [] \<Rightarrow> map_of content0 n
      | r # rs \<Rightarrow> (case get_link e (last (r # rs)) of Inr l \<Rightarrow> Some l | Inl err \<Rightarrow> None))"
proof (induction routes arbitrary: content0)
  case Nil
  then show ?case by simp
next
  case (Cons r routes)
  show ?case
  proof (cases "getattr_exclude_from_schema (route_view r)")
    case True
    with Cons show ?thesis by simp
  next
    case False
    with Cons.prems obtain l where l: "get_link e r = Inr l"
      and loop: "get_schema_content_loop e routes
                   (AList.update (view_name (route_view r)) l content0) = Inr content"
      by (auto split: sum.splits)
    note IH = Cons.IH [OF loop]
    show ?thesis
    proof (cases "view_name (route_view r) = n")
      case True
      with False IH l show ?thesis
        by (simp add: update_conv' split: list.splits)
    next
      case False
      with IH show ?thesis
        by (simp add: update_conv' split: list.splits)
    qed
  qed
qed

lemma get_schema_content_loop_keys:
  "get_schema_content_loop e routes content0 = Inr content \<Longrightarrow>
   fst ` set content = fst ` set content0 \<union>
     {view_name (route_view r) | r. r \<in> set routes \<and> \<not> getattr_exclude_from_schema (route_view r)}"
proof (induction routes arbitrary: content0)
  case Nil
  then show ?case by simp
next
  case (Cons r routes)
  show ?case
  proof (cases "getattr_exclude_from_schema (route_view r)")
    case True
    with Cons show ?thesis by auto
  next
    case False
    with Cons.prems obtain l where l: "get_link e r = Inr l"
      and loop: "get_schema_content_loop e routes
                   (AList.update (view_name (route_view r)) l content0) = Inr content"
      by (auto split: sum.splits)
    from Cons.IH [OF loop] False show ?thesis
      by (auto simp: dom_update)
  qed
qed

lemma get_schema_content_loop_distinct:
  "get_schema_content_loop e routes content0 = Inr content \<Longrightarrow>
   distinct (map fst content0) \<Longrightarrow> distinct (map fst content)"
  by (induction routes arbitrary: content0)
     (auto split: if_splits sum.splits simp: distinct_update)

lemma field_names_param_fields:
  "map field_name (concat (map (param_fields e meth names) ps)) =
   map param_name
     (filter (\<lambda>p. \<exists>location required.
                classify e meth names p = Inr (Some location, required)) ps)"
proof (induction ps)
  case Nil
  show ?case by simp
next
  case (Cons p ps)
  show ?case
  proof (cases "classify e meth names p")
    case (Inl err)
    with Cons show ?thesis by (simp add: param_fields_def)
  next
    case (Inr lr)
    with Cons show ?thesis
      by (cases lr; cases "fst lr") (simp_all add: param_fields_def)
  qed
qed

lemma get_schema_content_entry:
  assumes "get_schema_content e routes = Inr content"
  shows "distinct (map fst content)"
    and "fst ` set content =
         {view_name (route_view r) | r.
            r \<in> set routes \<and> \<not> getattr_exclude_from_schema (route_view r)}"
    and "map_of content n =
     (case filter (\<lambda>r. \<not> getattr_exclude_from_schema (route_view r)
                        \<and> view_name (route_view r) = n) routes of
        [] \<Rightarrow> None
      | r # rs \<Rightarrow> (case get_link e (last (r # rs)) of Inr l \<Rightarrow> Some l | Inl err \<Rightarrow> None))"
  using assms get_schema_content_loop_distinct [of e routes "[]" content]
    get_schema_content_loop_keys [of e routes "[]" content]
    get_schema_content_loop_map_of [of e routes "[]" content n]
  by (simp_all add: get_schema_content_def cong: list.case_cong)

lemma get_schema_content_last:
  assumes c: "get_schema_content e routes = Inr content"
    and r: "r \<in> set routes" "\<not> getattr_exclude_from_schema (route_view r)"
  shows "\<exists>l. get_link e (last (filter (\<lambda>r'. \<not> getattr_exclude_from_schema (route_view r')
                  \<and> view_name (route_view r') = view_name (route_view r)) routes)) = Inr l
             \<and> map_of content (view_name (route_view r)) = Some l"
proof -
  let ?rs = "filter (\<lambda>r'. \<not> getattr_exclude_from_schema (route_view r')
                  \<and> view_name (route_view r') = view_name (route_view r)) routes"
  from r have ne: "?rs \<noteq> []" by (auto simp: filter_empty_conv)
  then have "last ?rs \<in> set ?rs" by (rule last_in_set)
  then have "last ?rs \<in> set routes" "\<not> getattr_exclude_from_schema (route_view (last ?rs))"
    by simp_all
  with c obtain l where l: "get_link e (last ?rs) = Inr l"
    unfolding get_schema_content_def by (blast dest: get_schema_content_loop_ok)
  from ne obtain x xs where "?rs = x # xs" by (cases ?rs) auto
  with get_schema_content_entry(3) [OF c, of "view_name (route_view r)"] l
  have "map_of content (view_name (route_view r)) = Some l" by simp
  with l show ?thesis by blast
qed

text \<open>
  C4. The dictionary is to map the \<open>__name__\<close> of the view of every route that is not
  excluded to the link \<open>get_link\<close> produces for that route; the docstring of
  \<open>get_schema_content\<close> promises a dictionary containing all the links that the service
  exposes. The code does not do so: with the handler \<open>update_user\<close> routed for PUT and
  for PATCH it returns a dictionary whose only entry is the link of the PATCH route, and
  the link \<open>get_link\<close> produces for the PUT route is lost.
\<close>

theorem get_schema_content_overwrites_same_name:
  "get_schema_content example_env [example_put_user, example_patch_user] =
     Inr [(''update_user'', example_patch_link)]
   \<and> \<not> getattr_exclude_from_schema (route_view example_put_user)
   \<and> view_name (route_view example_put_user) = ''update_user''
   \<and> get_link example_env example_put_user = Inr example_put_link
   \<and> map_of [(''update_user'', example_patch_link)] ''update_user'' \<noteq> Some example_put_link"
  by code_simp

text \<open>
  \<open>get_schema_content\<close> returns exactly when \<open>get_link\<close> returns for every route whose
  view is not excluded.
\<close>

lemma get_schema_content_loop_returns_iff:
  "(\<exists>content. get_schema_content_loop e routes content0 = Inr content) \<longleftrightarrow>
   (\<forall>r\<in>set routes. \<not> getattr_exclude_from_schema (route_view r) \<longrightarrow>
      (\<exists>l. get_link e r = Inr l))"
proof (induction routes arbitrary: content0)
  case Nil
  show ?case by simp
next
  case (Cons r routes)
  show ?case
  proof (cases "getattr_exclude_from_schema (route_view r)")
    case True
    with Cons.IH [of content0] show ?thesis by simp
  next
    case False
    show ?thesis
    proof (cases "get_link e r")
      case (Inl err)
      with False show ?thesis by auto
    next
      case (Inr l)
      with False Cons.IH [of "AList.update (view_name (route_view r)) l content0"]
      show ?thesis by simp
    qed
  qed
qed

lemma get_schema_content_returns_iff:
  "(\<exists>content. get_schema_content e routes = Inr content) \<longleftrightarrow>
   (\<forall>r\<in>set routes. \<not> getattr_exclude_from_schema (route_view r) \<longrightarrow>
      (\<exists>l. get_link e r = Inr l))"
  unfolding get_schema_content_def by (rule get_schema_content_loop_returns_iff)

text \<open>
  What the code does: when \<open>get_schema_content\<close> returns, the keys of the dictionary are
  the \<open>__name__\<close>s of the views that have no true \<open>exclude_from_schema\<close> attribute, and
  the \<open>__name__\<close> of each such view is mapped to the link \<open>get_link\<close> produces for the
  last route of the list whose view has that name and is not excluded. Every link
  \<open>get_link\<close> produces has the route's path as its url, the route's method as its
  action, and as its fields the fields of the parameters that got a location, in the
  order of the parameters.
\<close>

theorem get_schema_content_links:
  "(\<forall>content. get_schema_content e routes = Inr content \<longrightarrow>
      distinct (map fst content)
      \<and> fst ` set content =
          {view_name (route_view r) | r.
             r \<in> set routes \<and> \<not> getattr_exclude_from_schema (route_view r)}
      \<and> (\<forall>r\<in>set routes. \<not> getattr_exclude_from_schema (route_view r) \<longrightarrow>
            (\<exists>l. get_link e
                    (last (filter (\<lambda>r'. \<not> getattr_exclude_from_schema (route_view r')
                             \<and> view_name (route_view r') = view_name (route_view r))
                           routes)) = Inr l
                 \<and> map_of content (view_name (route_view r)) = Some l)))
   \<and> (\<forall>r l. get_link e r = Inr l \<longrightarrow>
          link_url l = route_path r \<and> link_action l = route_method r
          \<and> link_fields l =
              concat (map (param_fields e (route_method r) (variable_names e (route_path r)))
                          (signature_parameters (route_view r)))
          \<and> map field_name (link_fields l) =
              map param_name
                (filter (\<lambda>p. \<exists>location required.
                           classify e (route_method r) (variable_names e (route_path r)) p =
                             Inr (Some location, required))
                        (signature_parameters (route_view r))))"
proof (intro conjI allI impI ballI)
  fix content
  assume c: "get_schema_content e routes = Inr content"
  show "distinct (map fst content)"
    using c by (rule get_schema_content_entry(1))
  show "fst ` set content =
          {view_name (route_view r) | r.
             r \<in> set routes \<and> \<not> getattr_exclude_from_schema (route_view r)}"
    using c by (rule get_schema_content_entry(2))
  fix r
  assume "r \<in> set routes" "\<not> getattr_exclude_from_schema (route_view r)"
  with c show "\<exists>l. get_link e
                    (last (filter (\<lambda>r'. \<not> getattr_exclude_from_schema (route_view r')
                             \<and> view_name (route_view r') = view_name (route_view r))
                           routes)) = Inr l
                 \<and> map_of content (view_name (route_view r)) = Some l"
    by (rule get_schema_content_last)
next
  fix r l
  assume l: "get_link e r = Inr l"
  note eq = get_link_Inr [OF l]
  show "link_url l = route_path r" by (subst eq) simp
  show "link_action l = route_method r" by (subst eq) simp
  show f: "link_fields l =
              concat (map (param_fields e (route_method r) (variable_names e (route_path r)))
                          (signature_parameters (route_view r)))"
    by (subst eq) simp
  show "map field_name (link_fields l) =
              map param_name
                (filter (\<lambda>p. \<exists>location required.
                           classify e (route_method r) (variable_names e (route_path r)) p =
                             Inr (Some location, required))
                        (signature_parameters (route_view r)))"
    unfolding f by (rule field_names_param_fields)
qed


theorem get_schema_content_links_witness:
  "get_schema_content example_env
     [example_docs_route, example_put_user, example_get_note, example_patch_user] =
     Inr [(''update_user'', example_patch_link),
          (''get_note'',
           \<lparr>link_url = ''/users/{user_id}/notes/{note}/'', link_action = ''GET'',
            link_fields =
              [\<lparr>field_name = ''user_id'', field_location = ''path'',
                field_required = True, field_schema = Some String\<rparr>,
               \<lparr>field_name = ''note'', field_location = ''path'',
                field_required = True, field_schema = Some String\<rparr>]\<rparr>)]
   \<and> (\<exists>l. get_link example_env example_patch_user = Inr l
          \<and> map_of [(''update_user'', example_patch_link),
          (''get_note'',
           \<lparr>link_url = ''/users/{user_id}/notes/{note}/'', link_action = ''GET'',
            link_fields =
              [\<lparr>field_name = ''user_id'', field_location = ''path'',
                field_required = True, field_schema = Some String\<rparr>,
               \<lparr>field_name = ''note'', field_location = ''path'',
                field_required = True, field_schema = Some String\<rparr>]\<rparr>)] ''update_user'' = Some l)
   \<and> link_url example_patch_link = ''/users/{user_id}/''
   \<and> link_action example_patch_link = ''PATCH''
   \<and> map field_name (link_fields example_patch_link) =
       [''user_id'', ''user'', ''notify'', ''comment'']"
proof -
  let ?routes = "[example_docs_route, example_put_user, example_get_note, example_patch_user]"
  let ?content = "[(''update_user'', example_patch_link),
          (''get_note'',
           \<lparr>link_url = ''/users/{user_id}/notes/{note}/'', link_action = ''GET'',
            link_fields =
              [\<lparr>field_name = ''user_id'', field_location = ''path'',
                field_required = True, field_schema = Some String\<rparr>,
               \<lparr>field_name = ''note'', field_location = ''path'',
                field_required = True, field_schema = Some String\<rparr>]\<rparr>)]"
  have 1: "get_schema_content example_env ?routes = Inr ?content"
    by code_simp
  have 2: "example_put_user \<in> set ?routes" by simp
  have 3: "\<not> getattr_exclude_from_schema (route_view example_put_user)"
    by code_simp
  have 4: "last (filter (\<lambda>r'. \<not> getattr_exclude_from_schema (route_view r')
               \<and> view_name (route_view r') = ''update_user'')
             ?routes) = example_patch_user"
    by code_simp
  have 5: "get_link example_env example_patch_user = Inr example_patch_link"
    by code_simp
  have 6: "view_name (route_view example_put_user) = ''update_user''"
    by code_simp
  from get_schema_content_links [of example_env ?routes] 1 2 3
  have "\<exists>l. get_link example_env
                    (last (filter (\<lambda>r'. \<not> getattr_exclude_from_schema (route_view r')
                             \<and> view_name (route_view r') =
                                 view_name (route_view example_put_user))
                           ?routes)) = Inr l
                 \<and> map_of ?content (view_name (route_view example_put_user)) = Some l"
    by blast
  then have a: "\<exists>l. get_link example_env example_patch_user = Inr l
                 \<and> map_of ?content ''update_user'' = Some l"
    unfolding 6 4 .
  from get_schema_content_links [of example_env ?routes] 5
  have "link_url example_patch_link = route_path example_patch_user
      \<and> link_action example_patch_link = route_method example_patch_user
      \<and> map field_name (link_fields example_patch_link) =
              map param_name
                (filter (\<lambda>p. \<exists>location required.
                           classify example_env (route_method example_patch_user)
                             (variable_names example_env (route_path example_patch_user)) p =
                             Inr (Some location, required))
                        (signature_parameters (route_view example_patch_user)))"
    by blast
  then have b: "link_url example_patch_link = ''/users/{user_id}/''
     \<and> link_action example_patch_link = ''PATCH''
     \<and> map field_name (link_fields example_patch_link) =
       [''user_id'', ''user'', ''notify'', ''comment'']"
    by (simp add: example_patch_link_def example_user_fields_def)
  from 1 a b show ?thesis by blast
qed

lemma get_schema_content_loop_filter:
  "get_schema_content_loop e
     (filter (\<lambda>r. \<not> getattr_exclude_from_schema (route_view r)) routes) content =
   get_schema_content_loop e routes content"
  by (induction routes arbitrary: content) (simp_all split: sum.splits)

lemma get_schema_content_item:
  assumes c: "get_schema_content e routes = Inr content"
    and nl: "(n, l) \<in> set content"
  shows "\<exists>r\<in>set routes. \<not> getattr_exclude_from_schema (route_view r)
           \<and> view_name (route_view r) = n \<and> get_link e r = Inr l
           \<and> r = last (filter (\<lambda>r'. \<not> getattr_exclude_from_schema (route_view r')
                                   \<and> view_name (route_view r') = n) routes)"
proof -
  let ?rs = "filter (\<lambda>r'. \<not> getattr_exclude_from_schema (route_view r')
                                   \<and> view_name (route_view r') = n) routes"
  from get_schema_content_entry(1) [OF c] nl have m: "map_of content n = Some l"
    by simp
  with get_schema_content_entry(3) [OF c, of n] have ne: "?rs \<noteq> []"
    by (auto split: list.splits)
  then obtain x xs where xs: "?rs = x # xs" by (cases ?rs) auto
  from ne have "last ?rs \<in> set ?rs" by (rule last_in_set)
  then have 1: "last ?rs \<in> set routes"
    "\<not> getattr_exclude_from_schema (route_view (last ?rs))"
    "view_name (route_view (last ?rs)) = n"
    by simp_all
  from m get_schema_content_entry(3) [OF c, of n] xs
  have "get_link e (last ?rs) = Inr l"
    by (auto split: sum.splits if_splits)
  with 1 show ?thesis by blast
qed

text \<open>
  C9, as the claim states it, fails: with the documentation view \<open>serve_docs\<close> at one
  route and a handler of the application that is also named \<open>serve_docs\<close> at another,
  the dictionary has the key \<open>serve_docs\<close>, which is the \<open>__name__\<close> of a view whose
  \<open>exclude_from_schema\<close> attribute is true.
\<close>

theorem get_schema_content_excluded_name_is_key:
  "get_schema_content example_env [example_docs_route, example_manual_route] =
     Inr [(''serve_docs'',
           \<lparr>link_url = ''/manual/'', link_action = ''GET'', link_fields = []\<rparr>)]
   \<and> route_view example_docs_route = serve_docs
   \<and> getattr_exclude_from_schema serve_docs
   \<and> view_name serve_docs = ''serve_docs''
   \<and> map_of [(''serve_docs'',
           \<lparr>link_url = ''/manual/'', link_action = ''GET'', link_fields = []\<rparr>)]
        (view_name serve_docs) =
      Some \<lparr>link_url = ''/manual/'', link_action = ''GET'', link_fields = []\<rparr>"
  by code_simp

text \<open>
  C9, amended. A view with a true \<open>exclude_from_schema\<close> attribute contributes nothing to
  the schema: \<open>get_schema_content\<close> returns for a list what it returns for the list without
  the routes of such views, and \<open>serve_schema\<close>, \<open>serve_schema_js\<close> and \<open>serve_docs\<close> are
  such views. Every entry of the dictionary is the \<open>__name__\<close> of a view that is not
  excluded with the link of the last route of the list whose view has that name and is
  not excluded, so of two such views of one name only the link of the later route is
  kept; the \<open>__name__\<close> of an excluded view is a key only when a view of the list that is
  not excluded has the same \<open>__name__\<close>.
\<close>

theorem get_schema_content_skips_excluded_views:
  "getattr_exclude_from_schema serve_schema
   \<and> getattr_exclude_from_schema serve_schema_js
   \<and> getattr_exclude_from_schema serve_docs
   \<and> get_schema_content e routes =
       get_schema_content e (filter (\<lambda>r. \<not> getattr_exclude_from_schema (route_view r)) routes)
   \<and> (\<forall>content. get_schema_content e routes = Inr content \<longrightarrow>
        (\<forall>(n, l)\<in>set content.
            \<exists>r\<in>set routes. \<not> getattr_exclude_from_schema (route_view r)
              \<and> view_name (route_view r) = n \<and> get_link e r = Inr l
              \<and> r = last (filter (\<lambda>r'. \<not> getattr_exclude_from_schema (route_view r')
                                      \<and> view_name (route_view r') = n) routes))
        \<and> (\<forall>v. getattr_exclude_from_schema v \<longrightarrow>
              (view_name v \<in> fst ` set content \<longleftrightarrow>
                 (\<exists>r\<in>set routes. \<not> getattr_exclude_from_schema (route_view r)
                    \<and> view_name (route_view r) = view_name v))))"
proof (intro conjI allI impI)
  show "getattr_exclude_from_schema serve_schema"
    by (simp add: getattr_exclude_from_schema_def serve_schema_def exclude_from_schema_def)
  show "getattr_exclude_from_schema serve_schema_js"
    by (simp add: getattr_exclude_from_schema_def serve_schema_js_def exclude_from_schema_def)
  show "getattr_exclude_from_schema serve_docs"
    by (simp add: getattr_exclude_from_schema_def serve_docs_def exclude_from_schema_def)
  show "get_schema_content e routes =
       get_schema_content e (filter (\<lambda>r. \<not> getattr_exclude_from_schema (route_view r)) routes)"
    by (simp add: get_schema_content_def get_schema_content_loop_filter)
next
  fix content
  assume c: "get_schema_content e routes = Inr content"
  show "\<forall>(n, l)\<in>set content.
            \<exists>r\<in>set routes. \<not> getattr_exclude_from_schema (route_view r)
              \<and> view_name (route_view r) = n \<and> get_link e r = Inr l
              \<and> r = last (filter (\<lambda>r'. \<not> getattr_exclude_from_schema (route_view r')
                                      \<and> view_name (route_view r') = n) routes)"
  proof (rule ballI)
    fix x
    assume x: "x \<in> set content"
    obtain n l where nl: "x = (n, l)" by (cases x)
    from get_schema_content_item [OF c, of n l] x nl
    show "case x of (n, l) \<Rightarrow>
            \<exists>r\<in>set routes. \<not> getattr_exclude_from_schema (route_view r)
              \<and> view_name (route_view r) = n \<and> get_link e r = Inr l
              \<and> r = last (filter (\<lambda>r'. \<not> getattr_exclude_from_schema (route_view r')
                                      \<and> view_name (route_view r') = n) routes)"
      by simp
  qed
next
  fix content and v :: view
  assume c: "get_schema_content e routes = Inr content"
  have "view_name v \<in> {view_name (route_view r) | r.
             r \<in> set routes \<and> \<not> getattr_exclude_from_schema (route_view r)} \<longleftrightarrow>
        (\<exists>r\<in>set routes. \<not> getattr_exclude_from_schema (route_view r)
                    \<and> view_name (route_view r) = view_name v)"
  proof
    assume "view_name v \<in> {view_name (route_view r) | r.
             r \<in> set routes \<and> \<not> getattr_exclude_from_schema (route_view r)}"
    then obtain r where "view_name v = view_name (route_view r)" "r \<in> set routes"
      "\<not> getattr_exclude_from_schema (route_view r)" by auto
    then show "\<exists>r\<in>set routes. \<not> getattr_exclude_from_schema (route_view r)
                    \<and> view_name (route_view r) = view_name v"
      by (intro bexI [of _ r]) simp_all
  next
    assume "\<exists>r\<in>set routes. \<not> getattr_exclude_from_schema (route_view r)
                    \<and> view_name (route_view r) = view_name v"
    then obtain r where "r \<in> set routes" "\<not> getattr_exclude_from_schema (route_view r)"
      "view_name (route_view r) = view_name v" by auto
    then have "view_name v = view_name (route_view r) \<and> r \<in> set routes
                 \<and> \<not> getattr_exclude_from_schema (route_view r)" by simp
    then show "view_name v \<in> {view_name (route_view r) | r.
             r \<in> set routes \<and> \<not> getattr_exclude_from_schema (route_view r)}"
      by (intro CollectI exI [of _ r])
  qed
  then show "view_name v \<in> fst ` set content \<longleftrightarrow>
                 (\<exists>r\<in>set routes. \<not> getattr_exclude_from_schema (route_view r)
                    \<and> view_name (route_view r) = view_name v)"
    by (simp only: get_schema_content_entry(2) [OF c])
qed

theorem get_schema_content_skips_excluded_views_witness:
  "get_schema_content example_env
     [example_docs_route, example_put_user, example_schema_route] =
     Inr [(''update_user'', example_put_link)]
   \<and> get_schema_content example_env
       [example_docs_route, example_put_user, example_schema_route] =
     get_schema_content example_env [example_put_user]
   \<and> view_name serve_docs \<notin> fst ` set [(''update_user'', example_put_link)]
   \<and> view_name serve_schema \<notin> fst ` set [(''update_user'', example_put_link)]"
proof -
  let ?routes = "[example_docs_route, example_put_user, example_schema_route]"
  have 1: "get_schema_content example_env ?routes = Inr [(''update_user'', example_put_link)]"
    by code_simp
  have 2: "filter (\<lambda>r. \<not> getattr_exclude_from_schema (route_view r)) ?routes =
           [example_put_user]"
    by code_simp
  have 3: "\<not> (\<exists>r\<in>set ?routes. \<not> getattr_exclude_from_schema (route_view r)
                \<and> view_name (route_view r) = view_name serve_docs)"
    by code_simp
  have 4: "\<not> (\<exists>r\<in>set ?routes. \<not> getattr_exclude_from_schema (route_view r)
                \<and> view_name (route_view r) = view_name serve_schema)"
    by code_simp
  note t = get_schema_content_skips_excluded_views [of example_env ?routes]
  from t 2 have a: "get_schema_content example_env ?routes =
                    get_schema_content example_env [example_put_user]"
    by simp
  from t 1 3 have b: "view_name serve_docs \<notin> fst ` set [(''update_user'', example_put_link)]"
    by blast
  from t 1 4 have c: "view_name serve_schema \<notin> fst ` set [(''update_user'', example_put_link)]"
    by blast
  from 1 a b c show ?thesis by blast
qed

section \<open>Facts about render_form\<close>

lemma fold_update_map_of:
  "map_of (fold (\<lambda>x al. AList.update (k x) (v x) al) xs acc) n =
     (case filter (\<lambda>x. k x = n) xs of
        [] \<Rightarrow> map_of acc n
      | y # ys \<Rightarrow> Some (v (last (y # ys))))"
proof (induction xs arbitrary: acc)
  case Nil
  show ?case by simp
next
  case (Cons x xs)
  show ?case
  proof (cases "k x = n")
    case True
    then show ?thesis
      by (simp add: Cons.IH update_conv' split: list.splits)
  next
    case False
    then show ?thesis
      by (simp add: Cons.IH update_conv' split: list.splits)
  qed
qed

lemma fold_update_keys:
  "fst ` set (fold (\<lambda>x al. AList.update (k x) (v x) al) xs acc) = fst ` set acc \<union> k ` set xs"
  by (induction xs arbitrary: acc) (auto simp: dom_update)

lemma fold_update_distinct:
  "distinct (map fst acc) \<Longrightarrow>
   distinct (map fst (fold (\<lambda>x al. AList.update (k x) (v x) al) xs acc))"
  by (induction xs arbitrary: acc) (simp_all add: distinct_update)

text \<open>
  C10. The \<open>coreschema.Object\<close> that \<open>render_form\<close> hands to \<open>render_to_form\<close> has one
  property for each name among the link's fields, the schema of the (last) field of that
  name, or a string schema when that field has no schema, and its list of required names
  is empty: the required flags of the fields do not reach the form.
\<close>

theorem render_form_schema_no_required:
  "(\<exists>properties.
      render_form_schema l = Object properties []
      \<and> render_form e l = render_to_form e (Object properties [])
      \<and> distinct (map fst properties)
      \<and> fst ` set properties = field_name ` set (link_fields l)
      \<and> (\<forall>n. map_of properties n =
             (case filter (\<lambda>f. field_name f = n) (link_fields l) of
                [] \<Rightarrow> None
              | f # fs \<Rightarrow> Some (schema_or_String (last (f # fs))))))
   \<and> schema_or_String (f\<lparr>field_schema := None\<rparr>) = String
   \<and> schema_or_String (f\<lparr>field_schema := Some s\<rparr>) = s
   \<and> render_form_schema
       (l\<lparr>link_fields := map (\<lambda>f. f\<lparr>field_required := req f\<rparr>) (link_fields l)\<rparr>) =
     render_form_schema l"
proof (intro conjI)
  let ?props = "fold (\<lambda>f properties. AList.update (field_name f) (schema_or_String f) properties)
               (link_fields l) []"
  have "render_form_schema l = Object ?props []
      \<and> render_form e l = render_to_form e (Object ?props [])
      \<and> distinct (map fst ?props)
      \<and> fst ` set ?props = field_name ` set (link_fields l)
      \<and> (\<forall>n. map_of ?props n =
             (case filter (\<lambda>f. field_name f = n) (link_fields l) of
                [] \<Rightarrow> None
              | f # fs \<Rightarrow> Some (schema_or_String (last (f # fs)))))"
    by (simp add: render_form_schema_def render_form_def fold_update_distinct
          fold_update_keys fold_update_map_of cong: list.case_cong)
  then show "\<exists>properties.
      render_form_schema l = Object properties []
      \<and> render_form e l = render_to_form e (Object properties [])
      \<and> distinct (map fst properties)
      \<and> fst ` set properties = field_name ` set (link_fields l)
      \<and> (\<forall>n. map_of properties n =
             (case filter (\<lambda>f. field_name f = n) (link_fields l) of
                [] \<Rightarrow> None
              | f # fs \<Rightarrow> Some (schema_or_String (last (f # fs)))))"
    by (rule exI)
  show "schema_or_String (f\<lparr>field_schema := None\<rparr>) = String"
    by (simp add: schema_or_String_def)
  show "schema_or_String (f\<lparr>field_schema := Some s\<rparr>) = s"
    by (simp add: schema_or_String_def)
  have "fold (\<lambda>f properties. AList.update (field_name f) (schema_or_String f) properties)
          (map (\<lambda>f. f\<lparr>field_required := req f\<rparr>) fs) acc =
        fold (\<lambda>f properties. AList.update (field_name f) (schema_or_String f) properties)
          fs acc" for fs acc
    by (induction fs arbitrary: acc) (simp_all add: schema_or_String_def)
  then show "render_form_schema
       (l\<lparr>link_fields := map (\<lambda>f. f\<lparr>field_required := req f\<rparr>) (link_fields l)\<rparr>) =
     render_form_schema l"
    by (simp add: render_form_schema_def)
qed

theorem render_form_schema_no_required_witness:
  "render_form_schema example_put_link =
     Object [(''user_id'', String), (''user'', String), (''notify'', String),
             (''comment'', String)] []
   \<and> render_form_schema
       (example_put_link\<lparr>link_fields :=
          map (\<lambda>f. f\<lparr>field_required := False\<rparr>) (link_fields example_put_link)\<rparr>) =
     Object [(''user_id'', String), (''user'', String), (''notify'', String),
             (''comment'', String)] []
   \<and> render_form_schema
       \<lparr>link_url = ''/search/'', link_action = ''GET'',
        link_fields =
          [\<lparr>field_name = ''q'', field_location = ''query'', field_required = True,
            field_schema = None\<rparr>,
           \<lparr>field_name = ''limit'', field_location = ''query'', field_required = True,
            field_schema = Some (OtherSchema ''Integer'')\<rparr>]\<rparr> =
     Object [(''q'', String), (''limit'', OtherSchema ''Integer'')] []"
proof -
  have 1: "render_form_schema example_put_link =
     Object [(''user_id'', String), (''user'', String), (''notify'', String),
             (''comment'', String)] []"
    by code_simp
  have 2: "render_form_schema
       \<lparr>link_url = ''/search/'', link_action = ''GET'',
        link_fields =
          [\<lparr>field_name = ''q'', field_location = ''query'', field_required = True,
            field_schema = None\<rparr>,
           \<lparr>field_name = ''limit'', field_location = ''query'', field_required = True,
            field_schema = Some (OtherSchema ''Integer'')\<rparr>]\<rparr> =
     Object [(''q'', String), (''limit'', OtherSchema ''Integer'')] []"
    by code_simp
  from render_form_schema_no_required
         [of example_put_link example_env
             "\<lparr>field_name = ''q'', field_location = ''query'', field_required = True,
               field_schema = None\<rparr>" String "\<lambda>f. False"] 1
  have "render_form_schema
       (example_put_link\<lparr>link_fields :=
          map (\<lambda>f. f\<lparr>field_required := False\<rparr>) (link_fields example_put_link)\<rparr>) =
     Object [(''user_id'', String), (''user'', String), (''notify'', String),
             (''comment'', String)] []"
    by simp
  with 1 2 show ?thesis by blast
qed

section \<open>The functions on an explicit store\<close>

text \<open>
  The same functions with the objects they work on in an explicit store. A function
  object and a list of routes are reached through their addresses; a \<open>Route\<close> tuple
  holds the address of its view. The dictionaries and the lists of fields are the
  objects the functions create: each kind is kept in a list, the address of an object
  its position, and a new object is appended. Every function takes the store and returns
  its result (or the exception) with the store it leaves.
\<close>

type_synonym addr = nat

record sroute =
  sroute_path :: string
  sroute_method :: string
  sroute_view :: addr

record store =
  function_objects :: "addr \<Rightarrow> view"
  route_lists :: "addr \<Rightarrow> sroute list"
  dicts :: "(string \<times> link) list list"
  field_lists :: "field list list"

text \<open>
  Lines 64-89 on the store: \<open>fields.append(field)\<close> updates the list object at the
  address \<open>fa\<close>.
\<close>

fun get_link_loop_s ::
  "env \<Rightarrow> string \<Rightarrow> string list \<Rightarrow> param list \<Rightarrow> addr \<Rightarrow> store \<Rightarrow> (error + unit) \<times> store" where
  "get_link_loop_s e meth names [] fa s = (Inr (), s)"
| "get_link_loop_s e meth names (p # ps) fa s =
     (case classify e meth names p of
        Inl err \<Rightarrow> (Inl err, s)
      | Inr (None, required) \<Rightarrow> get_link_loop_s e meth names ps fa s
      | Inr (Some location, required) \<Rightarrow>
          get_link_loop_s e meth names ps fa
            (s\<lparr>field_lists := (field_lists s)
                 [fa := field_lists s ! fa @
                    [\<lparr>field_name = param_name p, field_location = location,
                      field_required = required, field_schema = Some String\<rparr>]]\<rparr>))"

text \<open>
  Lines 58-91: \<open>inspect.signature(view)\<close> reads the function object, \<open>fields = []\<close>
  creates a list object, and the link is built from that list as the loop leaves it.
\<close>

definition get_link_s :: "env \<Rightarrow> sroute \<Rightarrow> store \<Rightarrow> (error + link) \<times> store" where
  "get_link_s e r s =
     (let view = function_objects s (sroute_view r);
          fa = length (field_lists s);
          s1 = s\<lparr>field_lists := field_lists s @ [[]]\<rparr>
      in case get_link_loop_s e (sroute_method r) (variable_names e (sroute_path r))
                (signature_parameters view) fa s1 of
           (Inl err, s2) \<Rightarrow> (Inl err, s2)
         | (Inr u, s2) \<Rightarrow>
             (Inr \<lparr>link_url = sroute_path r, link_action = sroute_method r,
                   link_fields = field_lists s2 ! fa\<rparr>, s2))"

text \<open>
  \<open>store_extends s s'\<close>: every function object and every list of routes of \<open>s\<close> is
  unchanged in \<open>s'\<close>, and so is every dictionary and every list of fields that exists in
  \<open>s\<close>; \<open>s'\<close> may hold new dictionaries and lists of fields after those of \<open>s\<close>.
\<close>

definition store_extends :: "store \<Rightarrow> store \<Rightarrow> bool" where
  "store_extends s s' \<longleftrightarrow>
     function_objects s' = function_objects s \<and> route_lists s' = route_lists s
     \<and> take (length (dicts s)) (dicts s') = dicts s
     \<and> take (length (field_lists s)) (field_lists s') = field_lists s"

lemma get_link_loop_s_frame:
  "get_link_loop_s e meth names ps fa s = (res, s') \<Longrightarrow>
   function_objects s' = function_objects s \<and> route_lists s' = route_lists s \<and> dicts s' = dicts s
   \<and> length (field_lists s') = length (field_lists s)
   \<and> (\<forall>a. a \<noteq> fa \<longrightarrow> field_lists s' ! a = field_lists s ! a)"
proof (induction ps arbitrary: s)
  case Nil
  then show ?case by simp
next
  case (Cons p ps)
  show ?case
  proof (cases "classify e meth names p")
    case (Inl err)
    with Cons.prems show ?thesis by simp
  next
    case (Inr lr)
    obtain loc req where lr: "lr = (loc, req)" by (cases lr)
    show ?thesis
    proof (cases loc)
      case None
      with Inr lr Cons.prems Cons.IH [of s] show ?thesis by simp
    next
      case (Some location)
      with Inr lr Cons.prems
        Cons.IH [of "s\<lparr>field_lists := (field_lists s)
                 [fa := field_lists s ! fa @
                    [\<lparr>field_name = param_name p, field_location = location,
                      field_required = req, field_schema = Some String\<rparr>]]\<rparr>"]
      show ?thesis by simp
    qed
  qed
qed

lemma get_link_loop_s_result:
  "fa < length (field_lists s) \<Longrightarrow>
   get_link_loop_s e meth names ps fa s = (res, s') \<Longrightarrow>
   (case get_link_loop e meth names ps (field_lists s ! fa) of
      Inl err \<Rightarrow> res = Inl err
    | Inr flds \<Rightarrow> res = Inr () \<and> field_lists s' ! fa = flds)"
proof (induction ps arbitrary: s)
  case Nil
  then show ?case by auto
next
  case (Cons p ps)
  show ?case
  proof (cases "classify e meth names p")
    case (Inl err)
    with Cons.prems show ?thesis by auto
  next
    case (Inr lr)
    obtain loc req where lr: "lr = (loc, req)" by (cases lr)
    show ?thesis
    proof (cases loc)
      case None
      with Inr lr Cons.prems Cons.IH [of s] show ?thesis by simp
    next
      case (Some location)
      with Inr lr Cons.prems
        Cons.IH [of "s\<lparr>field_lists := (field_lists s)
                 [fa := field_lists s ! fa @
                    [\<lparr>field_name = param_name p, field_location = location,
                      field_required = req, field_schema = Some String\<rparr>]]\<rparr>"]
      show ?thesis by simp
    qed
  qed
qed


text \<open>
  The route a \<open>Route\<close> tuple stands for in a store: the view is the function object at
  the address the tuple holds, and that address is its identity.
\<close>

definition route_of :: "store \<Rightarrow> sroute \<Rightarrow> route" where
  "route_of s r =
     \<lparr>route_path = sroute_path r, route_method = sroute_method r,
      route_view = (function_objects s (sroute_view r))\<lparr>view_id := sroute_view r\<rparr>\<rparr>"

lemma get_link_s_cases:
  obtains s2 where
    "get_link_loop_s e (sroute_method r) (variable_names e (sroute_path r))
       (signature_parameters (function_objects s (sroute_view r))) (length (field_lists s))
       (s\<lparr>field_lists := field_lists s @ [[]]\<rparr>) =
     (case get_link e (route_of s r) of Inl err \<Rightarrow> Inl err | Inr l \<Rightarrow> Inr (), s2)"
    "get_link_s e r s = (get_link e (route_of s r), s2)"
    "function_objects s2 = function_objects s" "route_lists s2 = route_lists s"
    "dicts s2 = dicts s" "length (field_lists s2) = Suc (length (field_lists s))"
    "take (length (field_lists s)) (field_lists s2) = field_lists s"
proof -
  let ?s1 = "s\<lparr>field_lists := field_lists s @ [[]]\<rparr>"
  let ?fa = "length (field_lists s)"
  let ?ps = "signature_parameters (function_objects s (sroute_view r))"
  let ?m = "sroute_method r" and ?ns = "variable_names e (sroute_path r)"
  obtain res s2 where run: "get_link_loop_s e ?m ?ns ?ps ?fa ?s1 = (res, s2)"
    by (cases "get_link_loop_s e ?m ?ns ?ps ?fa ?s1")
  note fr = get_link_loop_s_frame [OF run]
  have lt: "?fa < length (field_lists ?s1)" by simp
  note rs = get_link_loop_s_result [OF lt run]
  have tk: "take ?fa (field_lists s2) = field_lists s"
  proof (rule nth_equalityI)
    show "length (take ?fa (field_lists s2)) = length (field_lists s)"
      using fr by simp
  next
    fix i
    assume "i < length (take ?fa (field_lists s2))"
    then have i: "i < ?fa" by simp
    then have "field_lists s2 ! i = field_lists ?s1 ! i" using fr by simp
    with i show "take ?fa (field_lists s2) ! i = field_lists s ! i"
      by (simp add: nth_append)
  qed
  have g: "get_link e (route_of s r) =
     (case get_link_loop e ?m ?ns ?ps [] of
        Inl err \<Rightarrow> Inl err
      | Inr flds \<Rightarrow>
          Inr \<lparr>link_url = sroute_path r, link_action = sroute_method r, link_fields = flds\<rparr>)"
    by (simp add: get_link_def route_of_def cong: sum.case_cong)
  show thesis
  proof (rule that [of s2])
    show "get_link_loop_s e ?m ?ns ?ps ?fa ?s1 =
     (case get_link e (route_of s r) of Inl err \<Rightarrow> Inl err | Inr l \<Rightarrow> Inr (), s2)"
      using rs run g by (cases "get_link_loop e ?m ?ns ?ps []") simp_all
    show "get_link_s e r s = (get_link e (route_of s r), s2)"
      using rs run g
      by (cases "get_link_loop e ?m ?ns ?ps []") (simp_all add: get_link_s_def Let_def)
    show "function_objects s2 = function_objects s" using fr by simp
    show "route_lists s2 = route_lists s" using fr by simp
    show "dicts s2 = dicts s" using fr by simp
    show "length (field_lists s2) = Suc (length (field_lists s))" using fr by simp
    show "take (length (field_lists s)) (field_lists s2) = field_lists s" by (rule tk)
  qed
qed

lemma get_link_s_refines: "fst (get_link_s e r s) = get_link e (route_of s r)"
  by (rule get_link_s_cases [of e r s]) simp

lemma get_link_s_frame:
  "function_objects (snd (get_link_s e r s)) = function_objects s"
  "route_lists (snd (get_link_s e r s)) = route_lists s"
  "dicts (snd (get_link_s e r s)) = dicts s"
  "take (length (field_lists s)) (field_lists (snd (get_link_s e r s))) = field_lists s"
  by (rule get_link_s_cases [of e r s], simp)+

lemma get_link_s_route_lists:
  "(res, s') = get_link_s e r s \<Longrightarrow> route_lists s' = route_lists s"
  using get_link_s_frame(2) [of e r s] by (cases "get_link_s e r s") simp

text \<open>
  Lines 43-49 on the store: the \<open>for\<close> loop reads the list object at \<open>ra\<close> by position
  in every turn, and \<open>content[name] = link\<close> updates the dictionary at the address
  \<open>ca\<close>. The loop ends because \<open>get_link\<close> leaves the list of routes as it is.
\<close>

function get_schema_content_loop_s ::
  "env \<Rightarrow> addr \<Rightarrow> nat \<Rightarrow> addr \<Rightarrow> store \<Rightarrow> (error + unit) \<times> store" where
  "get_schema_content_loop_s e ra i ca s =
     (if i < length (route_lists s ra)
      then (let route = route_lists s ra ! i;
                view = function_objects s (sroute_view route)
            in if getattr_exclude_from_schema view
               then get_schema_content_loop_s e ra (Suc i) ca s
               else (case get_link_s e route s of
                       (Inl err, s') \<Rightarrow> (Inl err, s')
                     | (Inr l, s') \<Rightarrow>
                         get_schema_content_loop_s e ra (Suc i) ca
                           (s'\<lparr>dicts := (dicts s')
                                [ca := AList.update (view_name view) l (dicts s' ! ca)]\<rparr>)))
      else (Inr (), s))"
  by pat_completeness auto
termination
  apply (relation "measure (\<lambda>(e, ra, i, ca, s). length (route_lists s ra) - i)")
    apply simp
   apply simp
  apply (frule get_link_s_route_lists)
  apply simp
  done

declare get_schema_content_loop_s.simps [simp del]

text \<open>
  Lines 42-50: \<open>content = {}\<close> creates a dictionary, and its address is returned.
\<close>

definition get_schema_content_s :: "env \<Rightarrow> addr \<Rightarrow> store \<Rightarrow> (error + addr) \<times> store" where
  "get_schema_content_s e ra s =
     (let ca = length (dicts s);
          s1 = s\<lparr>dicts := dicts s @ [[]]\<rparr>
      in case get_schema_content_loop_s e ra 0 ca s1 of
           (Inl err, s2) \<Rightarrow> (Inl err, s2)
         | (Inr u, s2) \<Rightarrow> (Inr ca, s2))"

text \<open>
  Lines 31-34 read the list of routes and the identity of each view, and write nothing.
\<close>

definition get_schema_url_s ::
  "env \<Rightarrow> addr \<Rightarrow> string \<Rightarrow> store \<Rightarrow> string option \<times> store" where
  "get_schema_url_s e ra base_url s =
     (get_schema_url e (map (route_of s) (route_lists s ra)) base_url, s)"

lemma take_prefix_trans:
  "take (length a) b = a \<Longrightarrow> take (length b) c = b \<Longrightarrow> take (length a) c = a"
proof -
  assume ab: "take (length a) b = a" and bc: "take (length b) c = b"
  from ab have "length (take (length a) b) = length a" by simp
  then have "length a \<le> length b" by simp
  then have "take (length a) c = take (length a) (take (length b) c)"
    by (simp add: min_def)
  with ab bc show ?thesis by simp
qed

lemma route_of_cong:
  "function_objects s' = function_objects s \<Longrightarrow> route_of s' = route_of s"
  by (rule ext) (simp add: route_of_def)

lemma get_schema_content_loop_s_correct:
  "ca < length (dicts s) \<Longrightarrow>
   \<exists>s'. get_schema_content_loop_s e ra i ca s =
          (case get_schema_content_loop e (map (route_of s) (drop i (route_lists s ra)))
                  (dicts s ! ca) of
             Inl err \<Rightarrow> Inl err | Inr content \<Rightarrow> Inr (), s')
        \<and> function_objects s' = function_objects s \<and> route_lists s' = route_lists s
        \<and> length (dicts s') = length (dicts s)
        \<and> (\<forall>a. a \<noteq> ca \<longrightarrow> dicts s' ! a = dicts s ! a)
        \<and> take (length (field_lists s)) (field_lists s') = field_lists s
        \<and> (\<forall>content. get_schema_content_loop e
                (map (route_of s) (drop i (route_lists s ra))) (dicts s ! ca) = Inr content
              \<longrightarrow> dicts s' ! ca = content)"
proof (induction e ra i ca s rule: get_schema_content_loop_s.induct)
  case (1 e ra i ca s)
  show ?case
  proof (cases "i < length (route_lists s ra)")
    case False
    then show ?thesis
      by (subst get_schema_content_loop_s.simps) simp
  next
    case True
    let ?route = "route_lists s ra ! i"
    let ?view = "function_objects s (sroute_view ?route)"
    from True have dr: "drop i (route_lists s ra) = ?route # drop (Suc i) (route_lists s ra)"
      by (rule Cons_nth_drop_Suc [symmetric])
    have rv: "route_view (route_of s ?route) = ?view\<lparr>view_id := sroute_view ?route\<rparr>"
      by (simp add: route_of_def)
    have ex: "getattr_exclude_from_schema (route_view (route_of s ?route)) =
              getattr_exclude_from_schema ?view"
      by (simp add: rv getattr_exclude_from_schema_def)
    have nm: "view_name (route_view (route_of s ?route)) = view_name ?view"
      by (simp add: rv)
    show ?thesis
    proof (cases "getattr_exclude_from_schema ?view")
      case excl: True
      from "1.IH"(1) [OF True refl refl excl "1.prems"]
      show ?thesis
        by (subst get_schema_content_loop_s.simps) (simp add: True excl dr ex)
    next
      case nexcl: False
      obtain s2 where s2: "get_link_s e ?route s = (get_link e (route_of s ?route), s2)"
        "function_objects s2 = function_objects s" "route_lists s2 = route_lists s"
        "dicts s2 = dicts s"
        "take (length (field_lists s)) (field_lists s2) = field_lists s"
        by (rule get_link_s_cases [of e ?route s]) blast
      show ?thesis
      proof (cases "get_link e (route_of s ?route)")
        case (Inl err)
        with s2 show ?thesis
          by (subst get_schema_content_loop_s.simps)
             (auto simp add: True nexcl dr ex Let_def)
      next
        case (Inr l)
        let ?s3 = "s2\<lparr>dicts := (dicts s2)
                     [ca := AList.update (view_name ?view) l (dicts s2 ! ca)]\<rparr>"
        have ca3: "ca < length (dicts ?s3)" using "1.prems" s2 by simp
        from s2(1) Inr have g: "(Inr l, s2) = get_link_s e ?route s" by simp
        from "1.IH"(2) [OF True refl refl nexcl g refl ca3]
        obtain s' where s':
          "get_schema_content_loop_s e ra (Suc i) ca ?s3 =
            (case get_schema_content_loop e (map (route_of ?s3) (drop (Suc i) (route_lists ?s3 ra)))
                  (dicts ?s3 ! ca) of
             Inl err \<Rightarrow> Inl err | Inr content \<Rightarrow> Inr (), s')"
          "function_objects s' = function_objects ?s3" "route_lists s' = route_lists ?s3"
          "length (dicts s') = length (dicts ?s3)"
          "\<forall>a. a \<noteq> ca \<longrightarrow> dicts s' ! a = dicts ?s3 ! a"
          "take (length (field_lists ?s3)) (field_lists s') = field_lists ?s3"
          "\<forall>content. get_schema_content_loop e
                (map (route_of ?s3) (drop (Suc i) (route_lists ?s3 ra))) (dicts ?s3 ! ca) =
                  Inr content \<longrightarrow> dicts s' ! ca = content"
          by blast
        have ro: "route_of ?s3 = route_of s"
          by (rule route_of_cong) (simp add: s2)
        have d3: "dicts ?s3 ! ca = AList.update (view_name ?view) l (dicts s ! ca)"
          using "1.prems" s2 by simp
        have rl3: "route_lists ?s3 = route_lists s" using s2 by simp
        have f3: "function_objects ?s3 = function_objects s" using s2(2) by simp
        have l3: "length (dicts ?s3) = length (dicts s)" using s2(4) by simp
        have n3: "dicts ?s3 ! a = dicts s ! a" if "a \<noteq> ca" for a
          using s2(4) that by simp
        have fl3: "field_lists ?s3 = field_lists s2" by simp
        have step: "get_schema_content_loop_s e ra i ca s =
                    get_schema_content_loop_s e ra (Suc i) ca ?s3"
          by (subst get_schema_content_loop_s.simps)
             (simp add: True nexcl Let_def g [symmetric])
        have pure: "get_schema_content_loop e (map (route_of s) (drop i (route_lists s ra)))
                      (dicts s ! ca) =
                    get_schema_content_loop e
                      (map (route_of s) (drop (Suc i) (route_lists s ra)))
                      (AList.update (view_name ?view) l (dicts s ! ca))"
          by (simp add: dr ex nexcl Inr nm)
        have c0: "get_schema_content_loop_s e ra (Suc i) ca ?s3 =
            (case get_schema_content_loop e
                    (map (route_of s) (drop (Suc i) (route_lists s ra)))
                    (AList.update (view_name ?view) l (dicts s ! ca)) of
             Inl err \<Rightarrow> Inl err | Inr content \<Rightarrow> Inr (), s')"
          using s'(1) unfolding ro d3 rl3 .
        have c1: "function_objects s' = function_objects s"
          using s'(2) unfolding f3 .
        have c2: "route_lists s' = route_lists s"
          using s'(3) unfolding rl3 .
        have c3: "length (dicts s') = length (dicts s)"
          using s'(4) unfolding l3 .
        have c4: "\<forall>a. a \<noteq> ca \<longrightarrow> dicts s' ! a = dicts s ! a"
        proof (intro allI impI)
          fix a
          assume a: "a \<noteq> ca"
          with s'(5) have "dicts s' ! a = dicts ?s3 ! a" by blast
          also have "\<dots> = dicts s ! a" using a by (rule n3)
          finally show "dicts s' ! a = dicts s ! a" .
        qed
        have b: "take (length (field_lists s2)) (field_lists s') = field_lists s2"
          using s'(6) unfolding fl3 .
        have c5: "take (length (field_lists s)) (field_lists s') = field_lists s"
          using s2(5) b by (rule take_prefix_trans)
        have c6: "\<forall>content. get_schema_content_loop e
                    (map (route_of s) (drop (Suc i) (route_lists s ra)))
                    (AList.update (view_name ?view) l (dicts s ! ca)) = Inr content
                  \<longrightarrow> dicts s' ! ca = content"
          using s'(7) unfolding ro d3 rl3 .
        show ?thesis
          unfolding step pure
          using c0 c1 c2 c3 c4 c5 c6 by (intro exI [of _ s'] conjI)
      qed
    qed
  qed
qed

text \<open>
  What the caller of \<open>get_schema_content\<close> receives: the exception, or the contents of
  the dictionary at the returned address.
\<close>

definition returned_content :: "(error + addr) \<times> store \<Rightarrow> error + (string \<times> link) list" where
  "returned_content res =
     (case res of (Inl err, s') \<Rightarrow> Inl err | (Inr ca, s') \<Rightarrow> Inr (dicts s' ! ca))"

lemma get_schema_content_s_cases:
  obtains s' where
    "get_schema_content_s e ra s =
       (case get_schema_content e (map (route_of s) (route_lists s ra)) of
          Inl err \<Rightarrow> Inl err | Inr content \<Rightarrow> Inr (length (dicts s)), s')"
    "store_extends s s'"
    "\<forall>content. get_schema_content e (map (route_of s) (route_lists s ra)) = Inr content
        \<longrightarrow> dicts s' ! length (dicts s) = content"
proof -
  let ?s1 = "s\<lparr>dicts := dicts s @ [[]]\<rparr>"
  let ?ca = "length (dicts s)"
  have lt: "?ca < length (dicts ?s1)" by simp
  have ro: "route_of ?s1 = route_of s" by (rule route_of_cong) simp
  have rl: "route_lists ?s1 = route_lists s" by simp
  have d1: "dicts ?s1 ! ?ca = []" by simp
  have fo: "function_objects ?s1 = function_objects s" by simp
  have ld: "length (dicts ?s1) = Suc (length (dicts s))" by simp
  have fl: "field_lists ?s1 = field_lists s" by simp
  have nd: "dicts ?s1 ! a = dicts s ! a" if "a < ?ca" for a
    using that by (simp add: nth_append)
  from get_schema_content_loop_s_correct [OF lt, of e ra 0]
  obtain s' where s':
    "get_schema_content_loop_s e ra 0 ?ca ?s1 =
          (case get_schema_content_loop e (map (route_of ?s1) (drop 0 (route_lists ?s1 ra)))
                  (dicts ?s1 ! ?ca) of
             Inl err \<Rightarrow> Inl err | Inr content \<Rightarrow> Inr (), s')"
    "function_objects s' = function_objects ?s1" "route_lists s' = route_lists ?s1"
    "length (dicts s') = length (dicts ?s1)"
    "\<forall>a. a \<noteq> ?ca \<longrightarrow> dicts s' ! a = dicts ?s1 ! a"
    "take (length (field_lists ?s1)) (field_lists s') = field_lists ?s1"
    "\<forall>content. get_schema_content_loop e
                (map (route_of ?s1) (drop 0 (route_lists ?s1 ra))) (dicts ?s1 ! ?ca) =
                  Inr content \<longrightarrow> dicts s' ! ?ca = content"
    by blast
  have c0: "get_schema_content_loop_s e ra 0 ?ca ?s1 =
          (case get_schema_content e (map (route_of s) (route_lists s ra)) of
             Inl err \<Rightarrow> Inl err | Inr content \<Rightarrow> Inr (), s')"
    using s'(1) unfolding ro rl d1 drop_0 get_schema_content_def .
  have c6: "\<forall>content. get_schema_content e (map (route_of s) (route_lists s ra)) = Inr content
        \<longrightarrow> dicts s' ! ?ca = content"
    using s'(7) unfolding ro rl d1 drop_0 get_schema_content_def .
  have c1: "function_objects s' = function_objects s" using s'(2) unfolding fo .
  have c2: "route_lists s' = route_lists s" using s'(3) unfolding rl .
  have c3: "length (dicts s') = Suc (length (dicts s))" using s'(4) unfolding ld .
  have c5: "take (length (field_lists s)) (field_lists s') = field_lists s"
    using s'(6) unfolding fl .
  have c4: "take ?ca (dicts s') = dicts s"
  proof (rule nth_equalityI)
    show "length (take ?ca (dicts s')) = length (dicts s)" using c3 by simp
  next
    fix a
    assume "a < length (take ?ca (dicts s'))"
    then have a: "a < ?ca" by simp
    then have "a \<noteq> ?ca" by simp
    with s'(5) have "dicts s' ! a = dicts ?s1 ! a" by blast
    also have "\<dots> = dicts s ! a" using a by (rule nd)
    finally show "take ?ca (dicts s') ! a = dicts s ! a" using a by simp
  qed
  show thesis
  proof (rule that [of s'])
    show "get_schema_content_s e ra s =
       (case get_schema_content e (map (route_of s) (route_lists s ra)) of
          Inl err \<Rightarrow> Inl err | Inr content \<Rightarrow> Inr (length (dicts s)), s')"
      unfolding get_schema_content_s_def Let_def c0
      by (cases "get_schema_content e (map (route_of s) (route_lists s ra))") simp_all
    show "store_extends s s'"
      unfolding store_extends_def using c1 c2 c4 c5 by (intro conjI)
    show "\<forall>content. get_schema_content e (map (route_of s) (route_lists s ra)) = Inr content
        \<longrightarrow> dicts s' ! length (dicts s) = content"
      by (rule c6)
  qed
qed

lemma get_schema_content_s_refines:
  "returned_content (get_schema_content_s e ra s) =
   get_schema_content e (map (route_of s) (route_lists s ra))"
proof (rule get_schema_content_s_cases [of e ra s])
  fix s'
  assume 1: "get_schema_content_s e ra s =
       (case get_schema_content e (map (route_of s) (route_lists s ra)) of
          Inl err \<Rightarrow> Inl err | Inr content \<Rightarrow> Inr (length (dicts s)), s')"
    and 3: "\<forall>content. get_schema_content e (map (route_of s) (route_lists s ra)) = Inr content
        \<longrightarrow> dicts s' ! length (dicts s) = content"
  show ?thesis
  proof (cases "get_schema_content e (map (route_of s) (route_lists s ra))")
    case (Inl err)
    with 1 show ?thesis by (simp add: returned_content_def)
  next
    case (Inr content)
    with 1 3 show ?thesis by (simp add: returned_content_def)
  qed
qed

lemma get_schema_content_s_extends:
  "store_extends s (snd (get_schema_content_s e ra s))"
  by (rule get_schema_content_s_cases [of e ra s]) simp

lemma get_link_s_extends: "store_extends s (snd (get_link_s e r s))"
  unfolding store_extends_def by (intro conjI) (simp_all add: get_link_s_frame)

lemma route_of_agree:
  "function_objects s1 (sroute_view r) = function_objects s2 (sroute_view r) \<Longrightarrow>
   route_of s1 r = route_of s2 r"
  by (simp add: route_of_def)

text \<open>
  A store with the handler \<open>update_user\<close>, \<open>serve_docs\<close> and \<open>serve_schema\<close> among its
  function objects, a list of three routes at address 0, and one dictionary that exists
  before the schema is generated.
\<close>

definition example_store :: store where
  "example_store =
     \<lparr>function_objects =
        (\<lambda>a. if a = 10 then example_update_user
             else if a = 3 then serve_docs
             else if a = 1 then serve_schema
             else \<lparr>view_id = a, view_name = ''index'', attr_exclude_from_schema = None,
                   signature_parameters = []\<rparr>),
      route_lists =
        (\<lambda>a. if a = 0
             then [\<lparr>sroute_path = ''/docs/'', sroute_method = ''GET'', sroute_view = 3\<rparr>,
                   \<lparr>sroute_path = ''/users/{user_id}/'', sroute_method = ''PUT'',
                    sroute_view = 10\<rparr>,
                   \<lparr>sroute_path = ''/schema/'', sroute_method = ''GET'', sroute_view = 1\<rparr>]
             else []),
      dicts = [[(''index'', \<lparr>link_url = ''/'', link_action = ''GET'', link_fields = []\<rparr>)]],
      field_lists = []\<rparr>"


text \<open>
  C7. \<open>get_schema_content\<close>, \<open>get_link\<close> and \<open>get_schema_url\<close> change nothing that
  exists when they are called: in the store they leave, every function object, every
  list of routes (so the routes of the given list, with path, method and view) and
  every dictionary and list of fields that existed before is as it was;
  \<open>get_schema_url\<close> leaves the whole store as it was. The only writes go to the
  dictionary and the lists of fields the call itself created.
\<close>

theorem schema_functions_frame:
  "store_extends s (snd (get_schema_content_s e ra s))
   \<and> store_extends s (snd (get_link_s e r s))
   \<and> snd (get_schema_url_s e ra base_url s) = s
   \<and> route_lists (snd (get_schema_content_s e ra s)) ra = route_lists s ra
   \<and> map (route_of (snd (get_schema_content_s e ra s)))
         (route_lists (snd (get_schema_content_s e ra s)) ra) =
       map (route_of s) (route_lists s ra)
   \<and> route_of (snd (get_link_s e r s)) r = route_of s r"
proof (intro conjI)
  show 1: "store_extends s (snd (get_schema_content_s e ra s))"
    by (rule get_schema_content_s_extends)
  show 2: "store_extends s (snd (get_link_s e r s))"
    by (rule get_link_s_extends)
  show "snd (get_schema_url_s e ra base_url s) = s"
    by (simp add: get_schema_url_s_def)
  from 1 show "route_lists (snd (get_schema_content_s e ra s)) ra = route_lists s ra"
    by (simp add: store_extends_def)
  from 1 have "route_of (snd (get_schema_content_s e ra s)) = route_of s"
    by (intro route_of_cong) (simp add: store_extends_def)
  with 1 show "map (route_of (snd (get_schema_content_s e ra s)))
         (route_lists (snd (get_schema_content_s e ra s)) ra) =
       map (route_of s) (route_lists s ra)"
    by (simp add: store_extends_def)
  from 2 have "route_of (snd (get_link_s e r s)) = route_of s"
    by (intro route_of_cong) (simp add: store_extends_def)
  then show "route_of (snd (get_link_s e r s)) r = route_of s r" by simp
qed

theorem schema_functions_frame_witness:
  "returned_content (get_schema_content_s example_env 0 example_store) =
     Inr [(''update_user'', example_put_link)]
   \<and> dicts (snd (get_schema_content_s example_env 0 example_store)) =
     [[(''index'', \<lparr>link_url = ''/'', link_action = ''GET'', link_fields = []\<rparr>)],
      [(''update_user'', example_put_link)]]
   \<and> take (length (dicts example_store))
        (dicts (snd (get_schema_content_s example_env 0 example_store))) =
      dicts example_store
   \<and> route_lists (snd (get_schema_content_s example_env 0 example_store)) 0 =
      route_lists example_store 0"
proof -
  have 1: "returned_content (get_schema_content_s example_env 0 example_store) =
     Inr [(''update_user'', example_put_link)]"
    by code_simp
  have 2: "dicts (snd (get_schema_content_s example_env 0 example_store)) =
     [[(''index'', \<lparr>link_url = ''/'', link_action = ''GET'', link_fields = []\<rparr>)],
      [(''update_user'', example_put_link)]]"
    by code_simp
  note t = schema_functions_frame [of example_store example_env 0]
  from t have e: "store_extends example_store
                    (snd (get_schema_content_s example_env 0 example_store))"
    by (rule conjunct1)
  from e have 3: "take (length (dicts example_store))
        (dicts (snd (get_schema_content_s example_env 0 example_store))) =
      dicts example_store"
    unfolding store_extends_def by (elim conjE)
  from e have 4: "route_lists (snd (get_schema_content_s example_env 0 example_store)) =
      route_lists example_store"
    unfolding store_extends_def by (elim conjE)
  from 4 have 5: "route_lists (snd (get_schema_content_s example_env 0 example_store)) 0 =
      route_lists example_store 0"
    by (rule fun_cong)
  from 1 2 3 5 show ?thesis by (intro conjI)
qed

text \<open>
  C6. Schema generation is deterministic and depends only on the given routes: two
  stores that hold the same list of routes, with the same function objects as their
  views, give the same result of \<open>get_schema_content\<close> (the same exception or equal
  dictionaries) whatever else the stores hold; calling \<open>get_schema_content\<close> or
  \<open>get_link\<close> a second time, in the store the first call left, gives the result of the
  first call, in particular the same (name, location, required) triples in each link.
\<close>

theorem schema_generation_deterministic:
  "(route_lists s1 ra1 = route_lists s2 ra2
      \<and> (\<forall>r\<in>set (route_lists s1 ra1).
            function_objects s1 (sroute_view r) = function_objects s2 (sroute_view r))
      \<longrightarrow> returned_content (get_schema_content_s e ra1 s1) =
          returned_content (get_schema_content_s e ra2 s2))
   \<and> returned_content (get_schema_content_s e ra (snd (get_schema_content_s e ra s))) =
     returned_content (get_schema_content_s e ra s)
   \<and> (function_objects s1 (sroute_view r) = function_objects s2 (sroute_view r)
      \<longrightarrow> fst (get_link_s e r s1) = fst (get_link_s e r s2))
   \<and> fst (get_link_s e r (snd (get_link_s e r s))) = fst (get_link_s e r s)
   \<and> (\<forall>l1 l2. fst (get_link_s e r s) = Inr l1
        \<longrightarrow> fst (get_link_s e r (snd (get_link_s e r s))) = Inr l2
        \<longrightarrow> (\<lambda>f. (field_name f, field_location f, field_required f)) ` set (link_fields l1) =
            (\<lambda>f. (field_name f, field_location f, field_required f)) ` set (link_fields l2))"
proof (intro conjI allI impI)
  assume a: "route_lists s1 ra1 = route_lists s2 ra2
      \<and> (\<forall>r\<in>set (route_lists s1 ra1).
            function_objects s1 (sroute_view r) = function_objects s2 (sroute_view r))"
  then have rl: "route_lists s1 ra1 = route_lists s2 ra2" ..
  from a have ag: "\<forall>r\<in>set (route_lists s2 ra2).
            function_objects s1 (sroute_view r) = function_objects s2 (sroute_view r)"
    by simp
  have m: "map (route_of s1) (route_lists s2 ra2) =
           map (route_of s2) (route_lists s2 ra2)"
  proof (rule map_cong [OF refl])
    fix r
    assume "r \<in> set (route_lists s2 ra2)"
    with ag show "route_of s1 r = route_of s2 r"
      by (intro route_of_agree) blast
  qed
  show "returned_content (get_schema_content_s e ra1 s1) =
          returned_content (get_schema_content_s e ra2 s2)"
    unfolding get_schema_content_s_refines rl m ..
next
  have e: "store_extends s (snd (get_schema_content_s e ra s))"
    by (rule get_schema_content_s_extends)
  then have "route_of (snd (get_schema_content_s e ra s)) = route_of s"
    by (intro route_of_cong) (simp add: store_extends_def)
  with e show "returned_content
          (get_schema_content_s e ra (snd (get_schema_content_s e ra s))) =
        returned_content (get_schema_content_s e ra s)"
    by (simp add: get_schema_content_s_refines store_extends_def)
next
  assume "function_objects s1 (sroute_view r) = function_objects s2 (sroute_view r)"
  then have "route_of s1 r = route_of s2 r" by (rule route_of_agree)
  then show "fst (get_link_s e r s1) = fst (get_link_s e r s2)"
    by (simp add: get_link_s_refines)
next
  have "route_of (snd (get_link_s e r s)) r = route_of s r"
    by (rule route_of_agree) (simp add: get_link_s_frame)
  then show twice: "fst (get_link_s e r (snd (get_link_s e r s))) = fst (get_link_s e r s)"
    by (simp add: get_link_s_refines)
  fix l1 l2
  assume "fst (get_link_s e r s) = Inr l1"
    and "fst (get_link_s e r (snd (get_link_s e r s))) = Inr l2"
  with twice have "l1 = l2" by simp
  then show "(\<lambda>f. (field_name f, field_location f, field_required f)) ` set (link_fields l1) =
            (\<lambda>f. (field_name f, field_location f, field_required f)) ` set (link_fields l2)"
    by simp
qed

theorem schema_generation_deterministic_witness:
  "returned_content (get_schema_content_s example_env 0 example_store) =
     Inr [(''update_user'', example_put_link)]
   \<and> returned_content
       (get_schema_content_s example_env 0
          (snd (get_schema_content_s example_env 0 example_store))) =
     Inr [(''update_user'', example_put_link)]
   \<and> returned_content
       (get_schema_content_s example_env 0
          (example_store\<lparr>dicts := [], field_lists := [[], []]\<rparr>)) =
     Inr [(''update_user'', example_put_link)]"
proof -
  let ?s2 = "example_store\<lparr>dicts := [], field_lists := [[], []]\<rparr>"
  have 1: "returned_content (get_schema_content_s example_env 0 example_store) =
     Inr [(''update_user'', example_put_link)]"
    by code_simp
  have rl: "route_lists ?s2 = route_lists example_store" by simp
  have fo: "function_objects ?s2 = function_objects example_store" by simp
  have 2: "route_lists example_store 0 = route_lists ?s2 0
      \<and> (\<forall>r\<in>set (route_lists example_store 0).
            function_objects example_store (sroute_view r) =
            function_objects ?s2 (sroute_view r))"
    unfolding rl fo by (intro conjI ballI refl)
  note t = schema_generation_deterministic
         [of example_store 0 ?s2 0 example_env 0 example_store]
  from t have "route_lists example_store 0 = route_lists ?s2 0
      \<and> (\<forall>r\<in>set (route_lists example_store 0).
            function_objects example_store (sroute_view r) =
            function_objects ?s2 (sroute_view r))
      \<longrightarrow> returned_content (get_schema_content_s example_env 0 example_store) =
          returned_content (get_schema_content_s example_env 0 ?s2)"
    by (rule conjunct1)
  from this 2 have a: "returned_content (get_schema_content_s example_env 0 example_store) =
          returned_content (get_schema_content_s example_env 0 ?s2)"
    by (rule mp)
  from t have b: "returned_content
       (get_schema_content_s example_env 0
          (snd (get_schema_content_s example_env 0 example_store))) =
     returned_content (get_schema_content_s example_env 0 example_store)"
    by (rule conjunct1 [OF conjunct2])
  from a [symmetric] 1 have a': "returned_content (get_schema_content_s example_env 0 ?s2) =
     Inr [(''update_user'', example_put_link)]"
    by (rule trans)
  from b 1 have b': "returned_content
       (get_schema_content_s example_env 0
          (snd (get_schema_content_s example_env 0 example_store))) =
     Inr [(''update_user'', example_put_link)]"
    by (rule trans)
  from 1 b' a' show ?thesis by (intro conjI)
qed

end
